theory Spec2Isabelle
  imports Main "HOL-Library.Word" "HOL-Library.Multiset"
begin

section \<open>Scanner service: orchestrator, executor mapping and in-memory store\<close>

text \<open>
  A shallow embedding of the Go packages \<^verbatim>\<open>pkg/errors\<close>, \<^verbatim>\<open>scan/domain\<close>,
  \<^verbatim>\<open>scan/repository\<close> and \<^verbatim>\<open>adapters\<close> of the scanner service.

  Conventions.
  \<^item> A \<^verbatim>\<open>time.Time\<close> is the instant it denotes, an \<open>int\<close> (nanoseconds since the epoch);
    \<^verbatim>\<open>t.Before(u)\<close> is \<open>t < u\<close>. A \<^verbatim>\<open>time.Duration\<close> is an \<open>int\<close> of nanoseconds.
  \<^item> A \<^verbatim>\<open>float64\<close> is its IEEE-754 bit pattern; the code only stores and copies such values.
  \<^item> Go's \<^verbatim>\<open>int\<close> is the 64-bit two's complement integer where the code adds
    (\<^verbatim>\<open>offset + limit\<close>); where it is only compared it is an \<open>int\<close>.
  \<^item> A Go map is a partial function; \<^verbatim>\<open>len(m)\<close> is the number of its keys. The order in which
    \<^verbatim>\<open>range m\<close> visits the keys is not specified by Go: it is an explicit argument.
  \<^item> Fresh identifiers (\<^verbatim>\<open>uuid.New()\<close>) and the clock (\<^verbatim>\<open>time.Now()\<close>) are arguments.
  \<^item> Logging has no effect on the modelled state and is left out.
\<close>

subsection \<open>Package errors\<close>

datatype Type =
    ErrInternal | ErrNotFound | ErrInvalidInput | ErrTimeout
  | ErrUnavailable | ErrUnauthorized | ErrForbidden | ErrAlreadyExists

text \<open>
  A Go \<^verbatim>\<open>error\<close> value is either an application \<^verbatim>\<open>*Error\<close> (type, message, wrapped error)
  or an error of a library (\<^verbatim>\<open>os\<close>, \<^verbatim>\<open>exec\<close>, \<^verbatim>\<open>context\<close>), kept by its message.
\<close>

datatype Error = AppError Type string "Error option" | Foreign string

fun errType :: "Error \<Rightarrow> Type option" where
  "errType (AppError t m e) = Some t"
| "errType (Foreign m) = None"

definition New :: "Type \<Rightarrow> string \<Rightarrow> Error option \<Rightarrow> Error" where
  "New errT msg e = AppError errT msg e"

definition NewInternal :: "string \<Rightarrow> Error option \<Rightarrow> Error" where
  "NewInternal msg e = New ErrInternal msg e"

definition NewNotFound :: "string \<Rightarrow> Error option \<Rightarrow> Error" where
  "NewNotFound msg e = New ErrNotFound msg e"

definition NewInvalidInput :: "string \<Rightarrow> Error option \<Rightarrow> Error" where
  "NewInvalidInput msg e = New ErrInvalidInput msg e"

definition NewTimeout :: "string \<Rightarrow> Error option \<Rightarrow> Error" where
  "NewTimeout msg e = New ErrTimeout msg e"

definition NewUnavailable :: "string \<Rightarrow> Error option \<Rightarrow> Error" where
  "NewUnavailable msg e = New ErrUnavailable msg e"

text \<open>
  The error kinds the specification names (its taxonomy, and the Canceled outcome of the
  executor contract), and the kind each \<^verbatim>\<open>Type\<close> constant of the code stands for. Admission
  rejection (ResourceExhausted) is Unavailable in the specification as in the code.
\<close>

datatype spec_error =
    InternalError | NotFoundError | InvalidInputError | InvalidStateError | TimeoutError
  | CanceledError | UnavailableError | UnauthorizedError | ForbiddenError | AlreadyExistsError

fun spec_error_of :: "Type \<Rightarrow> spec_error" where
  "spec_error_of ErrInternal = InternalError"
| "spec_error_of ErrNotFound = NotFoundError"
| "spec_error_of ErrInvalidInput = InvalidInputError"
| "spec_error_of ErrTimeout = TimeoutError"
| "spec_error_of ErrUnavailable = UnavailableError"
| "spec_error_of ErrUnauthorized = UnauthorizedError"
| "spec_error_of ErrForbidden = ForbiddenError"
| "spec_error_of ErrAlreadyExists = AlreadyExistsError"

text \<open>The kind of failure of a call, \<open>None\<close> when it returned a value.\<close>

definition failure_kind :: "Error + 'a \<Rightarrow> spec_error option" where
  "failure_kind r =
     (case r of Inl e \<Rightarrow> map_option spec_error_of (errType e) | Inr v \<Rightarrow> None)"

subsection \<open>Package domain: the data model\<close>

type_synonym time = int
type_synonym Duration = int

definition Minute :: Duration where
  "Minute = 60 * 1000000000"

text \<open>\<^verbatim>\<open>type ScanStatus string\<close> with its five constants.\<close>

type_synonym ScanStatus = string

definition ScanStatusPending :: ScanStatus where "ScanStatusPending = ''PENDING''"
definition ScanStatusRunning :: ScanStatus where "ScanStatusRunning = ''RUNNING''"
definition ScanStatusCompleted :: ScanStatus where "ScanStatusCompleted = ''COMPLETED''"
definition ScanStatusFailed :: ScanStatus where "ScanStatusFailed = ''FAILED''"
definition ScanStatusCancelled :: ScanStatus where "ScanStatusCancelled = ''CANCELLED''"

type_synonym ScanType = string

type_synonym TimingTemplate = int

definition TimingParanoid :: TimingTemplate where "TimingParanoid = 0"
definition TimingNormal :: TimingTemplate where "TimingNormal = 3"
definition TimingInsane :: TimingTemplate where "TimingInsane = 5"

datatype float64 = Float64 "64 word"

definition float_0 :: float64 where
  "float_0 = Float64 0"

definition float_100 :: float64 where
  "float_100 = Float64 0x4059000000000000"

text \<open>
  The type parameter \<open>'xs\<close> is the representation of the \<^verbatim>\<open>[]string\<close> field: \<open>string list\<close>
  where only its contents matter, a slice header (see below) where sharing matters. Copying
  the struct copies the field, whatever it holds.
\<close>

record 'xs ScanOptions =
  Target :: string
  Ports :: string
  ScanType :: ScanType
  TimingTemplate :: TimingTemplate
  ServiceDetection :: bool
  OSDetection :: bool
  ScriptScan :: bool
  ExtraOptions :: 'xs
  Timeout :: Duration

record 'xs Scan =
  ID :: string
  UserID :: string
  Options :: "'xs ScanOptions"
  Status :: ScanStatus
  Progress :: float64
  CreatedAt :: time
  StartedAt :: "time option"
  CompletedAt :: "time option"
  Error :: string
  ResultID :: string

record Port =
  Port :: int
  Protocol :: string
  State :: string
  Service :: string
  Product :: string
  Version :: string
  ExtraInfo :: string

record Script =
  ScriptID :: string
  Output :: string
  Data :: "string \<rightharpoonup> string"

record HostMetadata =
  Distance :: int
  UpTime :: float64
  LastBoot :: time
  TCPSequence :: string
  IPIDSequence :: string

record Host =
  IP :: string
  Hostnames :: "string list"
  HostStatus :: string
  OS :: string
  HostPorts :: "Port list"
  Scripts :: "Script list"
  Metadata :: HostMetadata

text \<open>As for \<open>'xs\<close>, the parameter \<open>'hs\<close> is the representation of the \<^verbatim>\<open>[]Host\<close> field.\<close>

record 'hs ScanResult =
  ResID :: string
  ScanID :: string
  ResUserID :: string
  StartTime :: time
  EndTime :: time
  Duration :: float64
  Command :: string
  Summary :: string
  TotalHosts :: int
  UpHosts :: int
  Hosts :: 'hs

subsection \<open>Package repository: the in-memory store\<close>

record ('xs, 'hs) MemoryScanRepository =
  scans :: "string \<rightharpoonup> 'xs Scan"
  scanResults :: "string \<rightharpoonup> 'hs ScanResult"
  retentionPeriod :: Duration

definition NewMemoryScanRepository :: "Duration \<Rightarrow> ('xs, 'hs) MemoryScanRepository" where
  "NewMemoryScanRepository retention =
     \<lparr>scans = Map.empty, scanResults = Map.empty, retentionPeriod = retention\<rparr>"

text \<open>\<^verbatim>\<open>scanCopy := *scan; r.scans[scan.ID] = &scanCopy\<close>: the struct value is stored.\<close>

definition SaveScan ::
  "('xs, 'hs) MemoryScanRepository \<Rightarrow> 'xs Scan \<Rightarrow> Error + ('xs, 'hs) MemoryScanRepository" where
  "SaveScan r scan = Inr (r\<lparr>scans := (scans r)(ID scan \<mapsto> scan)\<rparr>)"

definition UpdateScan ::
  "('xs, 'hs) MemoryScanRepository \<Rightarrow> 'xs Scan \<Rightarrow> Error + ('xs, 'hs) MemoryScanRepository" where
  "UpdateScan r scan =
     (if scans r (ID scan) = None
      then Inl (NewNotFound (''scan with ID '' @ ID scan @ '' not found'') None)
      else Inr (r\<lparr>scans := (scans r)(ID scan \<mapsto> scan)\<rparr>))"

definition GetScanByID :: "('xs, 'hs) MemoryScanRepository \<Rightarrow> string \<Rightarrow> Error + 'xs Scan" where
  "GetScanByID r sid =
     (case scans r sid of
        None \<Rightarrow> Inl (NewNotFound (''scan with ID '' @ sid @ '' not found'') None)
      | Some scan \<Rightarrow> Inr scan)"

definition DeleteScan ::
  "('xs, 'hs) MemoryScanRepository \<Rightarrow> string \<Rightarrow> Error + ('xs, 'hs) MemoryScanRepository" where
  "DeleteScan r sid =
     (if scans r sid = None
      then Inl (NewNotFound (''scan with ID '' @ sid @ '' not found'') None)
      else Inr (r\<lparr>scans := (scans r)(sid := None)\<rparr>))"

definition SaveScanResult ::
  "('xs, 'hs) MemoryScanRepository \<Rightarrow> 'hs ScanResult \<Rightarrow> Error + ('xs, 'hs) MemoryScanRepository" where
  "SaveScanResult r result = Inr (r\<lparr>scanResults := (scanResults r)(ResID result \<mapsto> result)\<rparr>)"

definition GetScanResultByID ::
  "('xs, 'hs) MemoryScanRepository \<Rightarrow> string \<Rightarrow> Error + 'hs ScanResult" where
  "GetScanResultByID r sid =
     (case scanResults r sid of
        None \<Rightarrow> Inl (NewNotFound (''scan result with ID '' @ sid @ '' not found'') None)
      | Some result \<Rightarrow> Inr result)"

definition DeleteScanResult ::
  "('xs, 'hs) MemoryScanRepository \<Rightarrow> string \<Rightarrow> Error + ('xs, 'hs) MemoryScanRepository" where
  "DeleteScanResult r sid =
     (if scanResults r sid = None
      then Inl (NewNotFound (''scan result with ID '' @ sid @ '' not found'') None)
      else Inr (r\<lparr>scanResults := (scanResults r)(sid := None)\<rparr>))"

subsection \<open>Package domain: the scan service\<close>

text \<open>
  The service state: the store behind the \<^verbatim>\<open>ScanRepository\<close> interface, the configured
  maximum and the active set. The active set holds pointers to the live \<^verbatim>\<open>Scan\<close> objects;
  the map below gives the current value of each.
\<close>

record ('xs, 'hs) ScanService =
  repository :: "('xs, 'hs) MemoryScanRepository"
  maxConcurrentScans :: int
  activeScans :: "string \<rightharpoonup> 'xs Scan"

definition NewScanService ::
  "('xs, 'hs) MemoryScanRepository \<Rightarrow> int \<Rightarrow> ('xs, 'hs) ScanService" where
  "NewScanService repo maxScans =
     \<lparr>repository = repo, maxConcurrentScans = maxScans, activeScans = Map.empty\<rparr>"

definition len_map :: "('k \<rightharpoonup> 'v) \<Rightarrow> int" where
  "len_map m = int (card (dom m))"

text \<open>
  \<^verbatim>\<open>validateScanOptions(options ScanOptions) error\<close> receives the options by value. The model
  returns the error together with the callee's local copy after its three assignments; Go
  returns the error only, and the copy is dropped when the function returns.
\<close>

definition validateScanOptions :: "'xs ScanOptions \<Rightarrow> Error option \<times> 'xs ScanOptions" where
  "validateScanOptions options =
     (if Target options = []
      then (Some (NewInvalidInput ''target is required'' None), options)
      else
        let o1 = (if Timeout options = 0 then options\<lparr>Timeout := 5 * Minute\<rparr> else options);
            o2 = (if Ports o1 = [] then o1\<lparr>Ports := ''1-1000''\<rparr> else o1);
            o3 = (if TimingTemplate o2 < TimingParanoid \<or> TimingTemplate o2 > TimingInsane
                  then o2\<lparr>TimingTemplate := TimingNormal\<rparr> else o2)
        in (None, o3))"

text \<open>
  \<^verbatim>\<open>StartScan\<close> up to its return. \<open>newID\<close> is the value of \<^verbatim>\<open>uuid.New().String()\<close> and \<open>now\<close>
  that of \<^verbatim>\<open>time.Now()\<close>. The count check and the insertion into the active set are the
  body of one \<^verbatim>\<open>s.mu.Lock()\<close> ... \<^verbatim>\<open>s.mu.Unlock()\<close> section, the function \<open>admit\<close>. The
  \<^verbatim>\<open>go s.executeScan(ctx, scan)\<close> statement only schedules the execution task.
\<close>

definition admit ::
  "('xs, 'hs) ScanService \<Rightarrow> string \<Rightarrow> time \<Rightarrow> string \<Rightarrow> 'xs ScanOptions
     \<Rightarrow> (Error + 'xs Scan) \<times> ('xs, 'hs) ScanService" where
  "admit s newID now userID options =
     (if len_map (activeScans s) \<ge> maxConcurrentScans s
      then (Inl (NewUnavailable ''maximum concurrent scans reached'' None), s)
      else
        let scan = \<lparr>ID = newID, UserID = userID, Options = options,
                    Status = ScanStatusPending, Progress = float_0, CreatedAt = now,
                    StartedAt = None, CompletedAt = None, Error = [], ResultID = []\<rparr>
        in (Inr scan, s\<lparr>activeScans := (activeScans s)(ID scan \<mapsto> scan)\<rparr>))"

definition StartScan ::
  "('xs, 'hs) ScanService \<Rightarrow> string \<Rightarrow> time \<Rightarrow> string \<Rightarrow> 'xs ScanOptions
     \<Rightarrow> (Error + 'xs Scan) \<times> ('xs, 'hs) ScanService" where
  "StartScan s newID now userID options =
     (case fst (validateScanOptions options) of
        Some e \<Rightarrow> (Inl e, s)
      | None \<Rightarrow>
          (case admit s newID now userID options of
             (Inl e, s1) \<Rightarrow> (Inl e, s1)
           | (Inr scan, s1) \<Rightarrow>
               (case SaveScan (repository s1) scan of
                  Inl e \<Rightarrow>
                    (Inl (NewInternal ''failed to save scan'' (Some e)),
                     s1\<lparr>activeScans := (activeScans s1)(ID scan := None)\<rparr>)
                | Inr r \<Rightarrow> (Inr scan, s1\<lparr>repository := r\<rparr>))))"

text \<open>\<^verbatim>\<open>GetScan\<close>: the active set first, then the store.\<close>

definition GetScan :: "('xs, 'hs) ScanService \<Rightarrow> string \<Rightarrow> Error + 'xs Scan" where
  "GetScan s sid =
     (case activeScans s sid of
        Some scan \<Rightarrow> Inr scan
      | None \<Rightarrow>
          (case GetScanByID (repository s) sid of
             Inl e \<Rightarrow> Inl (NewNotFound ''scan not found'' (Some e))
           | Inr scan \<Rightarrow> Inr scan))"

text \<open>
  \<^verbatim>\<open>CancelScan\<close>. When \<^verbatim>\<open>GetScan\<close> found the scan in the active set it returned the pointer
  held there, so the two assignments change the active object in place (\<open>s1\<close>); a scan found
  in the store only is a private copy.
\<close>

text \<open>The result \<open>Inr ()\<close> is Go's \<^verbatim>\<open>nil\<close> error.\<close>

definition CancelScan ::
  "('xs, 'hs) ScanService \<Rightarrow> time \<Rightarrow> string \<Rightarrow> (Error + unit) \<times> ('xs, 'hs) ScanService" where
  "CancelScan s now sid =
     (case GetScan s sid of
        Inl e \<Rightarrow> (Inl e, s)
      | Inr scan \<Rightarrow>
          if Status scan \<noteq> ScanStatusRunning \<and> Status scan \<noteq> ScanStatusPending
          then (Inl (NewInvalidInput ''scan is not running or pending'' None), s)
          else
            let scan' = scan\<lparr>Status := ScanStatusCancelled, CompletedAt := Some now\<rparr>;
                s1 = (if activeScans s sid = None then s
                      else s\<lparr>activeScans := (activeScans s)(sid \<mapsto> scan')\<rparr>)
            in (case UpdateScan (repository s1) scan' of
                  Inl e \<Rightarrow> (Inl (NewInternal ''failed to update scan'' (Some e)), s1)
                | Inr r \<Rightarrow>
                    (Inr (), s1\<lparr>repository := r, activeScans := (activeScans s1)(sid := None)\<rparr>)))"

text \<open>
  The sections that \<^verbatim>\<open>s.mu\<close> serialises. Concurrent calls of \<^verbatim>\<open>StartScan\<close> run their locked
  sections (\<open>Admission\<close>, the function \<open>admit\<close>) one at a time, in the order in which the
  mutex is granted; the execution tasks, \<^verbatim>\<open>CancelScan\<close> and a failed save run
  \<^verbatim>\<open>delete(s.activeScans, id)\<close> under the same mutex (\<open>Removal\<close>). \<open>run_sections\<close> runs a
  sequence of such sections and collects the results of the admissions; \<open>admitted\<close> counts
  the calls that were let in.
\<close>

datatype 'xs locked_section =
    Admission string time string "'xs ScanOptions"
  | Removal string

fun run_sections ::
  "('xs, 'hs) ScanService \<Rightarrow> 'xs locked_section list
     \<Rightarrow> (Error + 'xs Scan) list \<times> ('xs, 'hs) ScanService" where
  "run_sections s [] = ([], s)"
| "run_sections s (Admission newID now userID options # rest) =
     (case admit s newID now userID options of
        (r, s1) \<Rightarrow> (case run_sections s1 rest of (rs, s2) \<Rightarrow> (r # rs, s2)))"
| "run_sections s (Removal sid # rest) =
     run_sections (s\<lparr>activeScans := (activeScans s)(sid := None)\<rparr>) rest"

fun succeeded :: "Error + 'a \<Rightarrow> bool" where
  "succeeded (Inl e) = False"
| "succeeded (Inr v) = True"

definition admitted :: "(Error + 'a) list \<Rightarrow> nat" where
  "admitted rs = length (filter succeeded rs)"

subsection \<open>Package repository: listing\<close>

text \<open>
  The \<^verbatim>\<open>for _, scan := range r.scans\<close> loop of \<^verbatim>\<open>ListScans\<close>, appending a copy of every scan
  that passes the owner filter; \<open>keys\<close> is the order in which the range visits the map.
\<close>

fun collect :: "(string \<rightharpoonup> 'xs Scan) \<Rightarrow> string \<Rightarrow> string list \<Rightarrow> 'xs Scan list" where
  "collect m userID [] = []"
| "collect m userID (k # ks) =
     (case m k of
        None \<Rightarrow> collect m userID ks
      | Some scan \<Rightarrow>
          if userID = [] \<or> UserID scan = userID
          then scan # collect m userID ks
          else collect m userID ks)"

text \<open>
  The two nested sorting loops. \<open>arr\<close> is the slice \<^verbatim>\<open>scans\<close> and \<open>n\<close> its length, which the swaps do not change;
  \<^verbatim>\<open>i < len(scans)-1\<close> on Go's signed integers is \<open>i + 1 < n\<close> on naturals.
\<close>

function sort_inner :: "nat \<Rightarrow> nat \<Rightarrow> nat \<Rightarrow> 'xs Scan list \<Rightarrow> 'xs Scan list" where
  "sort_inner n i j arr =
     (if j < n
      then sort_inner n i (j + 1)
             (if CreatedAt (arr ! i) < CreatedAt (arr ! j)
              then arr[i := arr ! j, j := arr ! i]
              else arr)
      else arr)"
  by pat_completeness auto
termination
  by (relation "measure (\<lambda>(n, i, j, arr). n - j)") auto

function sort_outer :: "nat \<Rightarrow> nat \<Rightarrow> 'xs Scan list \<Rightarrow> 'xs Scan list" where
  "sort_outer n i arr =
     (if i + 1 < n
      then sort_outer n (i + 1) (sort_inner n i (i + 1) arr)
      else arr)"
  by pat_completeness auto
termination
  by (relation "measure (\<lambda>(n, i, arr). n - i)") auto

declare sort_inner.simps [simp del]
declare sort_outer.simps [simp del]

definition sortScans :: "'xs Scan list \<Rightarrow> 'xs Scan list" where
  "sortScans arr = sort_outer (length arr) 0 arr"

text \<open>
  The slice expression \<^verbatim>\<open>s[lo:hi]\<close>: Go panics (\<open>None\<close>) unless \<open>0 \<le> lo \<le> hi \<le> cap(s)\<close>.
  \<^verbatim>\<open>ListScans\<close> clamps \<open>hi\<close> to \<^verbatim>\<open>len(s)\<close> first, so the length stands for the capacity.
\<close>

definition slice_expr :: "'a list \<Rightarrow> int \<Rightarrow> int \<Rightarrow> 'a list option" where
  "slice_expr xs lo hi =
     (if 0 \<le> lo \<and> lo \<le> hi \<and> hi \<le> int (length xs)
      then Some (take (nat hi - nat lo) (drop (nat lo) xs))
      else None)"

text \<open>
  \<^verbatim>\<open>ListScans\<close>; its \<^verbatim>\<open>error\<close> result is always \<^verbatim>\<open>nil\<close>, so the result is the returned
  sequence, or \<open>None\<close> for a run-time panic. \<^verbatim>\<open>limit\<close> and \<^verbatim>\<open>offset\<close> are 64-bit \<^verbatim>\<open>int\<close>s.
\<close>

definition ListScans ::
  "('xs, 'hs) MemoryScanRepository \<Rightarrow> string list \<Rightarrow> string \<Rightarrow> 64 word \<Rightarrow> 64 word
     \<Rightarrow> 'xs Scan list option" where
  "ListScans r keys userID limit offset =
     (let found = sortScans (collect (scans r) userID keys);
          n = int (length found)
      in if sint offset \<ge> n then Some []
         else
           let end0 = offset + limit;
               hi = (if sint end0 > n then n else sint end0)
           in slice_expr found (sint offset) hi)"

subsection \<open>Package repository: the reaper\<close>

text \<open>
  One tick of \<^verbatim>\<open>cleanupOldScans\<close>: the body of its \<^verbatim>\<open>for range ticker.C\<close> loop. Each of its two
  \<^verbatim>\<open>range\<close> loops is a recursion over the keys in the order visited; a key whose entry is
  gone when its turn comes is not visited.
\<close>

fun cleanScans ::
  "time \<Rightarrow> string list \<Rightarrow> ('xs, 'hs) MemoryScanRepository \<Rightarrow> ('xs, 'hs) MemoryScanRepository" where
  "cleanScans cutoffTime [] r = r"
| "cleanScans cutoffTime (k # ks) r =
     (case scans r k of
        None \<Rightarrow> cleanScans cutoffTime ks r
      | Some scan \<Rightarrow>
          if CreatedAt scan < cutoffTime
          then
            let r1 = r\<lparr>scans := (scans r)(k := None)\<rparr>;
                r2 = (if ResultID scan \<noteq> []
                      then r1\<lparr>scanResults := (scanResults r1)(ResultID scan := None)\<rparr>
                      else r1)
            in cleanScans cutoffTime ks r2
          else cleanScans cutoffTime ks r)"

fun cleanOrphans ::
  "string list \<Rightarrow> ('xs, 'hs) MemoryScanRepository \<Rightarrow> ('xs, 'hs) MemoryScanRepository" where
  "cleanOrphans [] r = r"
| "cleanOrphans (k # ks) r =
     (case scanResults r k of
        None \<Rightarrow> cleanOrphans ks r
      | Some result \<Rightarrow>
          if ScanID result \<noteq> [] \<and> scans r (ScanID result) = None
          then cleanOrphans ks (r\<lparr>scanResults := (scanResults r)(k := None)\<rparr>)
          else cleanOrphans ks r)"

definition cleanupTick ::
  "('xs, 'hs) MemoryScanRepository \<Rightarrow> time \<Rightarrow> string list \<Rightarrow> string list
     \<Rightarrow> ('xs, 'hs) MemoryScanRepository" where
  "cleanupTick r now scanKeys resultKeys =
     (let cutoffTime = now - retentionPeriod r
      in cleanOrphans resultKeys (cleanScans cutoffTime scanKeys r))"

subsection \<open>Package adapters: the nmap report and its mapping\<close>

text \<open>
  The struct \<^verbatim>\<open>NmapXML\<close>. Its anonymous nested structs are flattened into the field names:
  \<open>xStatusState\<close> is \<^verbatim>\<open>Status.State\<close>, \<open>xRunStatsHostsTotal\<close> is \<^verbatim>\<open>RunStats.Hosts.Total\<close>.
\<close>

record XMLAddress =
  xAddr :: string
  xAddrType :: string
  xVendor :: string

record XMLHostname =
  xName :: string
  xType :: string

record XMLScript =
  xScriptID :: string
  xScriptOutput :: string

record XMLPort =
  xProtocol :: string
  xPortID :: int
  xStateState :: string
  xStateReason :: string
  xServiceName :: string
  xServiceProduct :: string
  xServiceVersion :: string
  xServiceExtraInfo :: string
  xServiceMethod :: string
  xServiceConf :: string
  xServiceDeviceType :: string
  xScripts :: "XMLScript list"

record XMLOSMatch =
  xMatchName :: string
  xMatchAccuracy :: string

record XMLHost =
  xStartTime :: int
  xEndTime :: int
  xStatusState :: string
  xAddresses :: "XMLAddress list"
  xHostnames :: "XMLHostname list"
  xPorts :: "XMLPort list"
  xOSMatches :: "XMLOSMatch list"
  xUptimeSeconds :: string
  xUptimeLastBoot :: string
  xDistanceValue :: string
  xTCPSequenceIndex :: string
  xTCPSequenceDifficulty :: string
  xIPIDSequenceClass :: string

record NmapXML =
  xArgs :: string
  xStart :: int
  xVersion :: string
  xHosts :: "XMLHost list"
  xFinishedTime :: int
  xFinishedTimeStr :: string
  xFinishedElapsed :: float64
  xFinishedSummary :: string
  xFinishedExit :: string
  xRunStatsHostsUp :: int
  xRunStatsHostsDown :: int
  xRunStatsHostsTotal :: int

text \<open>
  The functions of Go's library that the mapping calls, each by the value it returns (the
  code drops the error): \<^verbatim>\<open>strconv.Atoi\<close>, \<^verbatim>\<open>strconv.ParseFloat(s, 64)\<close> and
  \<^verbatim>\<open>time.Parse("2006-01-02 15:04:05", s)\<close>.
\<close>

record stdlib =
  Atoi :: "string \<Rightarrow> int"
  ParseFloat :: "string \<Rightarrow> float64"
  timeParse :: "string \<Rightarrow> time"

text \<open>The zero \<^verbatim>\<open>time.Time\<close> (January 1, year 1, UTC) and \<^verbatim>\<open>time.Unix(sec, 0)\<close>.\<close>

definition zeroTime :: time where
  "zeroTime = - 62135596800 * 1000000000"

definition timeUnix :: "int \<Rightarrow> time" where
  "timeUnix sec = sec * 1000000000"

text \<open>The address loop: the first address of type \<^verbatim>\<open>ipv4\<close>, by \<^verbatim>\<open>break\<close>.\<close>

fun firstIPv4 :: "XMLAddress list \<Rightarrow> string" where
  "firstIPv4 [] = []"
| "firstIPv4 (a # as) = (if xAddrType a = ''ipv4'' then xAddr a else firstIPv4 as)"

definition convertScript :: "XMLScript \<Rightarrow> Script" where
  "convertScript xmlScript =
     \<lparr>ScriptID = xScriptID xmlScript, Output = xScriptOutput xmlScript, Data = Map.empty\<rparr>"

definition convertPort :: "XMLPort \<Rightarrow> Port" where
  "convertPort xmlPort =
     \<lparr>Port = xPortID xmlPort, Protocol = xProtocol xmlPort, State = xStateState xmlPort,
      Service = xServiceName xmlPort, Product = xServiceProduct xmlPort,
      Version = xServiceVersion xmlPort, ExtraInfo = xServiceExtraInfo xmlPort\<rparr>"

definition convertMetadata :: "stdlib \<Rightarrow> XMLHost \<Rightarrow> HostMetadata" where
  "convertMetadata lib xmlHost =
     \<lparr>Distance = (if xDistanceValue xmlHost \<noteq> [] then Atoi lib (xDistanceValue xmlHost) else 0),
      UpTime = (if xUptimeSeconds xmlHost \<noteq> []
                then ParseFloat lib (xUptimeSeconds xmlHost) else float_0),
      LastBoot = (if xUptimeLastBoot xmlHost \<noteq> []
                  then timeParse lib (xUptimeLastBoot xmlHost) else zeroTime),
      TCPSequence = (if xTCPSequenceDifficulty xmlHost \<noteq> []
                     then xTCPSequenceDifficulty xmlHost else []),
      IPIDSequence = (if xIPIDSequenceClass xmlHost \<noteq> []
                      then xIPIDSequenceClass xmlHost else [])\<rparr>"

text \<open>The body of the host loop for a host that is up.\<close>

definition convertHost :: "stdlib \<Rightarrow> XMLHost \<Rightarrow> Host" where
  "convertHost lib xmlHost =
     \<lparr>IP = firstIPv4 (xAddresses xmlHost),
      Hostnames = map xName (xHostnames xmlHost),
      HostStatus = xStatusState xmlHost,
      OS = (case xOSMatches xmlHost of [] \<Rightarrow> [] | m # ms \<Rightarrow> xMatchName m),
      HostPorts = map convertPort (xPorts xmlHost),
      Scripts = concat (map (\<lambda>xmlPort. map convertScript (xScripts xmlPort)) (xPorts xmlHost)),
      Metadata = convertMetadata lib xmlHost\<rparr>"

text \<open>The host loop, with its \<^verbatim>\<open>continue\<close> for a host whose state is not \<^verbatim>\<open>up\<close>.\<close>

fun convertHosts :: "stdlib \<Rightarrow> XMLHost list \<Rightarrow> Host list" where
  "convertHosts lib [] = []"
| "convertHosts lib (xmlHost # rest) =
     (if xStatusState xmlHost \<noteq> ''up''
      then convertHosts lib rest
      else convertHost lib xmlHost # convertHosts lib rest)"

definition convertToDomainModel :: "stdlib \<Rightarrow> NmapXML \<Rightarrow> time \<Rightarrow> Host list ScanResult" where
  "convertToDomainModel lib nmapXML startTime =
     \<lparr>ResID = [], ScanID = [], ResUserID = [],
      StartTime = startTime,
      EndTime = timeUnix (xFinishedTime nmapXML),
      Duration = xFinishedElapsed nmapXML,
      Command = [],
      Summary = xFinishedSummary nmapXML,
      TotalHosts = xRunStatsHostsTotal nmapXML,
      UpHosts = xRunStatsHostsUp nmapXML,
      Hosts = convertHosts lib (xHosts nmapXML)\<rparr>"

subsection \<open>Package adapters: running the scan\<close>

definition ScanTypeSYN :: ScanType where "ScanTypeSYN = ''SYN''"
definition ScanTypeConnect :: ScanType where "ScanTypeConnect = ''CONNECT''"
definition ScanTypeUDP :: ScanType where "ScanTypeUDP = ''UDP''"
definition ScanTypeVersion :: ScanType where "ScanTypeVersion = ''VERSION''"
definition ScanTypeScript :: ScanType where "ScanTypeScript = ''SCRIPT''"
definition ScanTypeAll :: ScanType where "ScanTypeAll = ''ALL''"

text \<open>\<^verbatim>\<open>fmt.Sprintf("-T%d", t)\<close> for \<open>0 \<le> t \<le> 5\<close>, the only values it is called with.\<close>

definition timingFlag :: "TimingTemplate \<Rightarrow> string" where
  "timingFlag t = ''-T'' @ [char_of (48 + nat t)]"

definition buildCommandArgs :: "string list ScanOptions \<Rightarrow> string list" where
  "buildCommandArgs options =
     [Target options]
     @ (if Ports options \<noteq> [] then [''-p'', Ports options] else [])
     @ (if ScanType options = ScanTypeSYN then [''-sS'']
        else if ScanType options = ScanTypeConnect then [''-sT'']
        else if ScanType options = ScanTypeUDP then [''-sU'']
        else if ScanType options = ScanTypeVersion then [''-sV'']
        else if ScanType options = ScanTypeScript then [''-sC'']
        else if ScanType options = ScanTypeAll then [''-A'']
        else [])
     @ (if TimingTemplate options \<ge> TimingParanoid \<and> TimingTemplate options \<le> TimingInsane
        then [timingFlag (TimingTemplate options)] else [])
     @ (if ServiceDetection options then [''-sV''] else [])
     @ (if OSDetection options then [''-O''] else [])
     @ (if ScriptScan options then [''-sC''] else [])
     @ ExtraOptions options"

text \<open>\<^verbatim>\<open>strings.Join(args, " ")\<close>.\<close>

fun join :: "string list \<Rightarrow> string" where
  "join [] = []"
| "join [a] = a"
| "join (a # b # rest) = a @ '' '' @ join (b # rest)"

text \<open>
  What the world outside answers during one \<^verbatim>\<open>ExecuteScan\<close>: the clock, the temporary file,
  the subprocess, the state of the context once \<^verbatim>\<open>cmd.Run()\<close> has returned, the file read
  back, the XML decoder and the fresh identifier.
\<close>

datatype ctx_error = ContextCanceled | ContextDeadlineExceeded

fun ctx_error_value :: "ctx_error \<Rightarrow> Error" where
  "ctx_error_value ContextCanceled = Foreign ''context canceled''"
| "ctx_error_value ContextDeadlineExceeded = Foreign ''context deadline exceeded''"

record exec_env =
  timeNow :: time
  osCreateTemp :: "Error + string"
  cmdRun :: "Error option"
  ctxErr :: "ctx_error option"
  osReadFile :: "Error + string"
  xmlUnmarshal :: "string \<Rightarrow> Error + NmapXML"
  uuidNew :: string

definition ExecuteScan ::
  "string \<Rightarrow> stdlib \<Rightarrow> exec_env \<Rightarrow> string list ScanOptions \<Rightarrow> Error + Host list ScanResult" where
  "ExecuteScan nmapPath lib env scanOptions =
     (let startTime = timeNow env;
          args = buildCommandArgs scanOptions
      in case osCreateTemp env of
           Inl e \<Rightarrow> Inl (NewInternal ''failed to create temporary file'' (Some e))
         | Inr tmpFileName \<Rightarrow>
             let args = args @ [''-oX'', tmpFileName]
             in (case cmdRun env of
                   Some e \<Rightarrow>
                     if ctxErr env = Some ContextCanceled
                     then Inl (NewTimeout ''scan was cancelled''
                                 (Some (ctx_error_value ContextCanceled)))
                     else if ctxErr env = Some ContextDeadlineExceeded
                     then Inl (NewTimeout ''scan timed out''
                                 (Some (ctx_error_value ContextDeadlineExceeded)))
                     else Inl (NewInternal ''nmap scan failed'' (Some e))
                 | None \<Rightarrow>
                     (case osReadFile env of
                        Inl e \<Rightarrow> Inl (NewInternal ''failed to read nmap output'' (Some e))
                      | Inr xmlData \<Rightarrow>
                          (case xmlUnmarshal env xmlData of
                             Inl e \<Rightarrow> Inl (NewInternal ''failed to parse nmap output'' (Some e))
                           | Inr nmapXML \<Rightarrow>
                               Inr ((convertToDomainModel lib nmapXML startTime)
                                      \<lparr>ResID := uuidNew env,
                                       Command := nmapPath @ '' '' @ join args\<rparr>)))))"

subsection \<open>Slices as references\<close>

text \<open>
  A Go slice value is a header: the address of a backing array and a length. Assigning or
  copying a struct that has a slice field copies the header; the array is shared. The
  memory maps an address to the array that lives there.
\<close>

record slice =
  array :: nat
  len :: nat

type_synonym 'a memory = "nat \<Rightarrow> 'a list"

text \<open>Reading the elements of a slice, and the assignment \<^verbatim>\<open>s[i] = v\<close> (\<open>None\<close>: index out of range).\<close>

definition elems :: "'a memory \<Rightarrow> slice \<Rightarrow> 'a list" where
  "elems mem s = take (len s) (mem (array s))"

definition index_assign :: "'a memory \<Rightarrow> slice \<Rightarrow> nat \<Rightarrow> 'a \<Rightarrow> 'a memory option" where
  "index_assign mem s i v =
     (if i < len s then Some (mem(array s := (mem (array s))[i := v])) else None)"

text \<open>
  The invariant of the outer sorting loop: every position before \<open>i\<close> holds a scan that is
  at least as new as every scan at a later position.
\<close>

definition front_sorted :: "nat \<Rightarrow> 'xs Scan list \<Rightarrow> bool" where
  "front_sorted i arr \<longleftrightarrow>
     (\<forall>a b. a < b \<and> b < length arr \<and> a < i \<longrightarrow> CreatedAt (arr ! b) \<le> CreatedAt (arr ! a))"

subsection \<open>Sample values\<close>

definition sample_options :: "string list ScanOptions" where
  "sample_options =
     \<lparr>Target = ''10.0.0.5'', Ports = ''22,80'', ScanType = ''CONNECT'', TimingTemplate = 3,
      ServiceDetection = False, OSDetection = False, ScriptScan = False,
      ExtraOptions = [], Timeout = 5 * 1000000000\<rparr>"

text \<open>Options that leave the port specification, the timeout and a valid timing level out.\<close>

definition bare_options :: "string list ScanOptions" where
  "bare_options =
     \<lparr>Target = ''10.0.0.5'', Ports = [], ScanType = ''CONNECT'', TimingTemplate = 9,
      ServiceDetection = False, OSDetection = False, ScriptScan = False,
      ExtraOptions = [], Timeout = 0\<rparr>"

definition fresh_service :: "int \<Rightarrow> (string list, Host list) ScanService" where
  "fresh_service maxScans = NewScanService (NewMemoryScanRepository (24 * 60 * Minute)) maxScans"

text \<open>A store with three finished scans of two owners.\<close>

definition scan_at :: "string \<Rightarrow> string \<Rightarrow> time \<Rightarrow> string list Scan" where
  "scan_at sid owner t =
     \<lparr>ID = sid, UserID = owner, Options = sample_options, Status = ScanStatusCompleted,
      Progress = float_100, CreatedAt = t, StartedAt = Some t, CompletedAt = Some (t + 1),
      Error = [], ResultID = []\<rparr>"

definition sample_repo :: "(string list, Host list) MemoryScanRepository" where
  "sample_repo =
     \<lparr>scans = [''a'' \<mapsto> scan_at ''a'' ''alice'' 100, ''b'' \<mapsto> scan_at ''b'' ''bob'' 300,
               ''c'' \<mapsto> scan_at ''c'' ''alice'' 200],
      scanResults = Map.empty, retentionPeriod = 1000\<rparr>"

text \<open>A service whose store holds the one given scan.\<close>

definition stored_service :: "string list Scan \<Rightarrow> (string list, Host list) ScanService" where
  "stored_service scan =
     (fresh_service 10)
       \<lparr>repository := (repository (fresh_service 10))\<lparr>scans := [ID scan \<mapsto> scan]\<rparr>\<rparr>"

definition running_scan :: "string list Scan" where
  "running_scan =
     \<lparr>ID = ''job-1'', UserID = ''alice'', Options = sample_options, Status = ScanStatusRunning,
      Progress = float_0, CreatedAt = 1000, StartedAt = Some 1001, CompletedAt = None,
      Error = [], ResultID = []\<rparr>"

text \<open>The service while \<open>running_scan\<close> executes: the scan is stored and active.\<close>

definition running_service :: "(string list, Host list) ScanService" where
  "running_service = (stored_service running_scan)\<lparr>activeScans := [''job-1'' \<mapsto> running_scan]\<rparr>"

text \<open>A library whose parsers read nothing: every call returns the zero value.\<close>

definition zero_lib :: stdlib where
  "zero_lib = \<lparr>Atoi = (\<lambda>s. 0), ParseFloat = (\<lambda>s. float_0), timeParse = (\<lambda>s. zeroTime)\<rparr>"

definition xml_host :: "string \<Rightarrow> string \<Rightarrow> XMLHost" where
  "xml_host state addr =
     \<lparr>xStartTime = 0, xEndTime = 0, xStatusState = state,
      xAddresses = [\<lparr>xAddr = addr, xAddrType = ''ipv4'', xVendor = []\<rparr>],
      xHostnames = [], xPorts = [], xOSMatches = [],
      xUptimeSeconds = [], xUptimeLastBoot = [], xDistanceValue = [],
      xTCPSequenceIndex = [], xTCPSequenceDifficulty = [], xIPIDSequenceClass = []\<rparr>"

text \<open>A report of two hosts, one up and one down, whose run statistics count both.\<close>

definition sample_report :: NmapXML where
  "sample_report =
     \<lparr>xArgs = ''nmap 10.0.0.0/30'', xStart = 0, xVersion = ''7.94'',
      xHosts = [xml_host ''up'' ''10.0.0.1'', xml_host ''down'' ''10.0.0.2''],
      xFinishedTime = 60, xFinishedTimeStr = [], xFinishedElapsed = float_0,
      xFinishedSummary = ''2 IP addresses (1 host up)'', xFinishedExit = ''success'',
      xRunStatsHostsUp = 1, xRunStatsHostsDown = 1, xRunStatsHostsTotal = 2\<rparr>"

text \<open>The answers of the world when the subprocess fails with the given state of the context.\<close>

definition failed_run :: "ctx_error option \<Rightarrow> exec_env" where
  "failed_run c =
     \<lparr>timeNow = 1000, osCreateTemp = Inr ''/tmp/nmap-scan-1.xml'',
      cmdRun = Some (Foreign ''signal: killed''), ctxErr = c,
      osReadFile = Inr [], xmlUnmarshal = (\<lambda>d. Inl (Foreign ''EOF'')), uuidNew = ''result-1''\<rparr>"

definition result_of :: "string \<Rightarrow> string \<Rightarrow> Host list ScanResult" where
  "result_of rid sid =
     \<lparr>ResID = rid, ScanID = sid, ResUserID = ''alice'', StartTime = 0, EndTime = 0,
      Duration = float_0, Command = [], Summary = [], TotalHosts = 0, UpHosts = 0, Hosts = []\<rparr>"

text \<open>
  A store with an old scan and a new one, each with its result, and the result of a scan
  that is gone. With a retention of 1000 and the clock at 5500 the old scan has expired.
\<close>

definition aged_repo :: "(string list, Host list) MemoryScanRepository" where
  "aged_repo =
     \<lparr>scans = [''old'' \<mapsto> (scan_at ''old'' ''alice'' 100)\<lparr>ResultID := ''r-old''\<rparr>,
               ''new'' \<mapsto> (scan_at ''new'' ''bob'' 5000)\<lparr>ResultID := ''r-new''\<rparr>],
      scanResults = [''r-old'' \<mapsto> result_of ''r-old'' ''old'',
                     ''r-new'' \<mapsto> result_of ''r-new'' ''new'',
                     ''r-lost'' \<mapsto> result_of ''r-lost'' ''gone''],
      retentionPeriod = 1000\<rparr>"

text \<open>A store in which the old scan and the new one refer to the same result.\<close>

definition shared_result_repo :: "(string list, Host list) MemoryScanRepository" where
  "shared_result_repo =
     \<lparr>scans = [''old'' \<mapsto> (scan_at ''old'' ''alice'' 100)\<lparr>ResultID := ''r-1''\<rparr>,
               ''new'' \<mapsto> (scan_at ''new'' ''alice'' 5000)\<lparr>ResultID := ''r-1''\<rparr>],
      scanResults = [''r-1'' \<mapsto> result_of ''r-1'' ''new''],
      retentionPeriod = 1000\<rparr>"

text \<open>
  The store at the level of references: the slice fields are headers, and the elements live
  in a memory of string arrays and one of host arrays. \<open>ref_scan\<close> and \<open>ref_result\<close> are a
  scan with two extra options and a result with one host.
\<close>

definition ref_scan :: "slice Scan" where
  "ref_scan =
     \<lparr>ID = ''job-1'', UserID = ''alice'',
      Options = \<lparr>Target = ''10.0.0.5'', Ports = ''22,80'', ScanType = ''CONNECT'',
                 TimingTemplate = 3, ServiceDetection = False, OSDetection = False,
                 ScriptScan = False, ExtraOptions = \<lparr>array = 1, len = 2\<rparr>,
                 Timeout = 5 * 1000000000\<rparr>,
      Status = ScanStatusCompleted, Progress = float_100, CreatedAt = 1000,
      StartedAt = Some 1001, CompletedAt = Some 1002, Error = [], ResultID = ''result-1''\<rparr>"

definition ref_result :: "slice ScanResult" where
  "ref_result =
     \<lparr>ResID = ''result-1'', ScanID = ''job-1'', ResUserID = ''alice'', StartTime = 1001,
      EndTime = 1002, Duration = float_0, Command = ''nmap 10.0.0.5'', Summary = [],
      TotalHosts = 1, UpHosts = 1, Hosts = \<lparr>array = 2, len = 1\<rparr>\<rparr>"

definition host_at :: "string \<Rightarrow> Host" where
  "host_at addr =
     \<lparr>IP = addr, Hostnames = [], HostStatus = ''up'', OS = [], HostPorts = [], Scripts = [],
      Metadata = \<lparr>Distance = 0, UpTime = float_0, LastBoot = zeroTime, TCPSequence = [],
                  IPIDSequence = []\<rparr>\<rparr>"

definition string_memory :: "string memory" where
  "string_memory = (\<lambda>a. [])(1 := [''-v'', ''--open''])"

definition host_memory :: "Host memory" where
  "host_memory = (\<lambda>a. [])(2 := [host_at ''10.0.0.5''])"

definition ref_repo :: "(slice, slice) MemoryScanRepository" where
  "ref_repo =
     \<lparr>scans = [''job-1'' \<mapsto> ref_scan], scanResults = [''result-1'' \<mapsto> ref_result],
      retentionPeriod = 1000\<rparr>"

text \<open>What the stored records hold, read through the memory.\<close>

definition stored_extra_options ::
  "string memory \<Rightarrow> (slice, 'hs) MemoryScanRepository \<Rightarrow> string \<Rightarrow> string list option" where
  "stored_extra_options mem r sid =
     map_option (\<lambda>scan. elems mem (ExtraOptions (Options scan))) (scans r sid)"

definition stored_hosts ::
  "Host memory \<Rightarrow> ('xs, slice) MemoryScanRepository \<Rightarrow> string \<Rightarrow> Host list option" where
  "stored_hosts mem r rid = map_option (\<lambda>result. elems mem (Hosts result)) (scanResults r rid)"

text \<open>A service with a budget of two scans, both in use, and three concurrent calls.\<close>

definition busy_service :: "(string list, Host list) ScanService" where
  "busy_service =
     (fresh_service 2)
       \<lparr>activeScans := [''job-1'' \<mapsto> scan_at ''job-1'' ''alice'' 100,
                        ''job-2'' \<mapsto> scan_at ''job-2'' ''bob'' 200]\<rparr>"

definition three_calls :: "(string \<times> time \<times> string \<times> string list ScanOptions) list" where
  "three_calls =
     [(''job-1'', 1000, ''alice'', sample_options), (''job-2'', 1001, ''bob'', sample_options),
      (''job-3'', 1002, ''carol'', sample_options)]"

section \<open>Properties of the orchestrator\<close>

lemma validate_ok: "Target options \<noteq> [] \<Longrightarrow> fst (validateScanOptions options) = None"
  by (simp add: validateScanOptions_def Let_def)

text \<open>
  C3. For every options value whose target is the empty string and every user, \<open>StartScan\<close>
  fails with an \<open>InvalidInput\<close> error and returns the service state it was given: nothing is
  added to the active set and nothing is written to the store.
\<close>

theorem StartScan_empty_target:
  assumes "Target options = []"
  shows "StartScan s newID now userID options =
           (Inl (NewInvalidInput ''target is required'' None), s)
         \<and> failure_kind (fst (StartScan s newID now userID options)) = Some InvalidInputError
         \<and> activeScans (snd (StartScan s newID now userID options)) = activeScans s
         \<and> repository (snd (StartScan s newID now userID options)) = repository s"
  using assms
  by (simp add: StartScan_def validateScanOptions_def failure_kind_def NewInvalidInput_def New_def)

theorem StartScan_empty_target_witness:
  "Target (sample_options\<lparr>Target := []\<rparr>) = []
   \<and> StartScan (fresh_service 10) ''job-1'' 1000 ''alice'' (sample_options\<lparr>Target := []\<rparr>) =
       (Inl (NewInvalidInput ''target is required'' None), fresh_service 10)"
  using StartScan_empty_target
    [of "sample_options\<lparr>Target := []\<rparr>" "fresh_service 10" "''job-1''" 1000 "''alice''"]
  by simp

lemma run_sections_Admission:
  "run_sections s (Admission newID now userID options # rest) =
     (fst (admit s newID now userID options)
        # fst (run_sections (snd (admit s newID now userID options)) rest),
      snd (run_sections (snd (admit s newID now userID options)) rest))"
  by (simp split: prod.splits)

lemma admit_max [simp]:
  "maxConcurrentScans (snd (admit s newID now userID options)) = maxConcurrentScans s"
  by (simp add: admit_def Let_def)

lemma admit_finite:
  "finite (dom (activeScans s)) \<Longrightarrow>
   finite (dom (activeScans (snd (admit s newID now userID options))))"
  by (simp add: admit_def Let_def)

lemma admit_budget:
  assumes "finite (dom (activeScans s))"
    and "len_map (activeScans s) \<le> maxConcurrentScans s"
  shows "len_map (activeScans (snd (admit s newID now userID options))) \<le> maxConcurrentScans s"
  using assms by (auto simp: admit_def len_map_def Let_def card_insert_if)

lemma removal_budget:
  assumes "finite (dom (activeScans s))"
    and "len_map (activeScans s) \<le> maxConcurrentScans s"
  shows "len_map ((activeScans s)(sid := None)) \<le> maxConcurrentScans s"
proof -
  have "card (dom (activeScans s) - {sid}) \<le> card (dom (activeScans s))"
    using assms(1) by (intro card_mono) auto
  then show ?thesis using assms(2) by (simp add: len_map_def)
qed

lemma run_sections_budget:
  "finite (dom (activeScans s)) \<Longrightarrow> len_map (activeScans s) \<le> maxConcurrentScans s \<Longrightarrow>
   len_map (activeScans (snd (run_sections s secs))) \<le> maxConcurrentScans s
   \<and> maxConcurrentScans (snd (run_sections s secs)) = maxConcurrentScans s"
proof (induction secs arbitrary: s)
  case Nil
  then show ?case by simp
next
  case (Cons x secs)
  show ?case
  proof (cases x)
    case (Admission newID now userID options)
    let ?s1 = "snd (admit s newID now userID options)"
    have f1: "finite (dom (activeScans ?s1))"
      using Cons.prems(1) by (rule admit_finite)
    have l1: "len_map (activeScans ?s1) \<le> maxConcurrentScans ?s1"
      using admit_budget [OF Cons.prems] by simp
    show ?thesis
      using Cons.IH [OF f1 l1] Admission
      by (simp add: run_sections_Admission del: run_sections.simps)
  next
    case (Removal sid)
    let ?s1 = "s\<lparr>activeScans := (activeScans s)(sid := None)\<rparr>"
    have f1: "finite (dom (activeScans ?s1))"
      using Cons.prems(1) by simp
    have l1: "len_map (activeScans ?s1) \<le> maxConcurrentScans ?s1"
      using removal_budget [OF Cons.prems] by simp
    show ?thesis
      using Cons.IH [OF f1 l1] Removal by simp
  qed
qed

lemma admissions_count:
  "finite (dom (activeScans s)) \<Longrightarrow> len_map (activeScans s) \<le> maxConcurrentScans s \<Longrightarrow>
   distinct (map fst calls) \<Longrightarrow> set (map fst calls) \<inter> dom (activeScans s) = {} \<Longrightarrow>
   admitted (fst (run_sections s
       (map (\<lambda>(newID, now, userID, options). Admission newID now userID options) calls))) =
     min (length calls) (nat (maxConcurrentScans s - len_map (activeScans s)))"
proof (induction calls arbitrary: s)
  case Nil
  then show ?case by (simp add: admitted_def)
next
  case (Cons c calls)
  obtain newID now userID options where c: "c = (newID, now, userID, options)"
    by (cases c) auto
  let ?secs = "map (\<lambda>(newID, now, userID, options). Admission newID now userID options) calls"
  show ?case
  proof (cases "len_map (activeScans s) \<ge> maxConcurrentScans s")
    case True
    then have adm: "admit s newID now userID options =
                 (Inl (NewUnavailable ''maximum concurrent scans reached'' None), s)"
      by (simp add: admit_def)
    have "admitted (fst (run_sections s ?secs)) =
            min (length calls) (nat (maxConcurrentScans s - len_map (activeScans s)))"
      using Cons.IH [of s] Cons.prems by simp
    then show ?thesis
      using True c adm
      by (simp add: admitted_def run_sections_Admission del: run_sections.simps)
  next
    case False
    let ?scan = "\<lparr>ID = newID, UserID = userID, Options = options,
                   Status = ScanStatusPending, Progress = float_0, CreatedAt = now,
                   StartedAt = None, CompletedAt = None, Error = [], ResultID = []\<rparr>"
    let ?s1 = "s\<lparr>activeScans := (activeScans s)(newID \<mapsto> ?scan)\<rparr>"
    have adm: "admit s newID now userID options = (Inr ?scan, ?s1)"
      using False by (simp add: admit_def Let_def)
    have fresh: "newID \<notin> dom (activeScans s)"
      using Cons.prems(4) c by auto
    have len1: "len_map (activeScans ?s1) = len_map (activeScans s) + 1"
      using fresh Cons.prems(1) by (simp add: len_map_def)
    have f1: "finite (dom (activeScans ?s1))"
      using Cons.prems(1) by simp
    have l1: "len_map (activeScans ?s1) \<le> maxConcurrentScans ?s1"
      using False len1 by simp
    have d1: "distinct (map fst calls)"
      using Cons.prems(3) by simp
    have i1: "set (map fst calls) \<inter> dom (activeScans ?s1) = {}"
      using Cons.prems(3,4) c by auto
    have "admitted (fst (run_sections ?s1 ?secs)) =
            min (length calls) (nat (maxConcurrentScans ?s1 - len_map (activeScans ?s1)))"
      by (rule Cons.IH [OF f1 l1 d1 i1])
    then show ?thesis
      using c adm False len1
      by (simp add: admitted_def run_sections_Admission del: run_sections.simps)
  qed
qed


text \<open>
  C2. For a non-empty target. In every state whose active set has at least the configured
  maximum of entries, \<open>StartScan\<close> fails with the \<open>Unavailable\<close> error and returns the state
  it was given: no record is created, the active set and the store are unchanged. The count
  check and the insertion are one step, the locked section \<open>admit\<close>: below the maximum it
  returns the new Pending scan together with the state in which the active set holds that
  scan, and \<open>StartScan\<close> then also stores it. Hence, starting within the budget, no sequence
  of locked sections (admissions and removals, in any order) takes the active set above the
  maximum, and of any number of concurrent calls with fresh identifiers exactly as many are
  admitted as the budget has room for; the others fail.
\<close>

theorem StartScan_budget_exhausted:
  assumes "Target options \<noteq> []"
  shows "(len_map (activeScans s) \<ge> maxConcurrentScans s \<longrightarrow>
            StartScan s newID now userID options =
              (Inl (NewUnavailable ''maximum concurrent scans reached'' None), s)
            \<and> admit s newID now userID options =
              (Inl (NewUnavailable ''maximum concurrent scans reached'' None), s)
            \<and> failure_kind (fst (StartScan s newID now userID options)) = Some UnavailableError
            \<and> activeScans (snd (StartScan s newID now userID options)) = activeScans s
            \<and> repository (snd (StartScan s newID now userID options)) = repository s)
         \<and> (len_map (activeScans s) < maxConcurrentScans s \<longrightarrow>
             (let scan = \<lparr>ID = newID, UserID = userID, Options = options,
                          Status = ScanStatusPending, Progress = float_0, CreatedAt = now,
                          StartedAt = None, CompletedAt = None, Error = [], ResultID = []\<rparr>
              in admit s newID now userID options =
                   (Inr scan, s\<lparr>activeScans := (activeScans s)(newID \<mapsto> scan)\<rparr>)
                 \<and> StartScan s newID now userID options =
                   (Inr scan,
                    s\<lparr>activeScans := (activeScans s)(newID \<mapsto> scan),
                      repository := (repository s)
                        \<lparr>scans := (scans (repository s))(newID \<mapsto> scan)\<rparr>\<rparr>)))
         \<and> (finite (dom (activeScans s)) \<and> len_map (activeScans s) \<le> maxConcurrentScans s
              \<longrightarrow>
             len_map (activeScans (snd (run_sections s secs))) \<le> maxConcurrentScans s)
         \<and> (finite (dom (activeScans s)) \<and> len_map (activeScans s) \<le> maxConcurrentScans s
              \<and> distinct (map fst calls) \<and> set (map fst calls) \<inter> dom (activeScans s) = {}
              \<longrightarrow>
             admitted (fst (run_sections s
                 (map (\<lambda>(newID, now, userID, options). Admission newID now userID options)
                    calls))) =
               min (length calls) (nat (maxConcurrentScans s - len_map (activeScans s))))"
proof -
  have rejected: "len_map (activeScans s) \<ge> maxConcurrentScans s \<longrightarrow>
            StartScan s newID now userID options =
              (Inl (NewUnavailable ''maximum concurrent scans reached'' None), s)
            \<and> admit s newID now userID options =
              (Inl (NewUnavailable ''maximum concurrent scans reached'' None), s)
            \<and> failure_kind (fst (StartScan s newID now userID options)) = Some UnavailableError
            \<and> activeScans (snd (StartScan s newID now userID options)) = activeScans s
            \<and> repository (snd (StartScan s newID now userID options)) = repository s"
    using assms
    by (simp add: StartScan_def validate_ok admit_def failure_kind_def NewUnavailable_def New_def)
  have accepted: "len_map (activeScans s) < maxConcurrentScans s \<longrightarrow>
             (let scan = \<lparr>ID = newID, UserID = userID, Options = options,
                          Status = ScanStatusPending, Progress = float_0, CreatedAt = now,
                          StartedAt = None, CompletedAt = None, Error = [], ResultID = []\<rparr>
              in admit s newID now userID options =
                   (Inr scan, s\<lparr>activeScans := (activeScans s)(newID \<mapsto> scan)\<rparr>)
                 \<and> StartScan s newID now userID options =
                   (Inr scan,
                    s\<lparr>activeScans := (activeScans s)(newID \<mapsto> scan),
                      repository := (repository s)
                        \<lparr>scans := (scans (repository s))(newID \<mapsto> scan)\<rparr>\<rparr>))"
    using assms
    by (simp add: StartScan_def validate_ok admit_def SaveScan_def Let_def)
  show ?thesis
    using rejected accepted run_sections_budget [of s secs] admissions_count [of s calls]
    by blast
qed

lemma len_busy: "len_map (activeScans busy_service) = 2"
  by (simp add: busy_service_def len_map_def)

lemma three_calls_results:
  "map succeeded (fst (run_sections (fresh_service 2)
      (map (\<lambda>(newID, now, userID, options). Admission newID now userID options) three_calls)))
   = [True, True, False]"
  by (simp add: three_calls_def admit_def fresh_service_def NewScanService_def len_map_def Let_def)

theorem StartScan_budget_exhausted_witness:
  "Target sample_options \<noteq> []
   \<and> len_map (activeScans busy_service) \<ge> maxConcurrentScans busy_service
   \<and> StartScan busy_service ''job-3'' 1002 ''carol'' sample_options =
       (Inl (NewUnavailable ''maximum concurrent scans reached'' None), busy_service)
   \<and> len_map (activeScans (fresh_service 2)) < maxConcurrentScans (fresh_service 2)
   \<and> activeScans (snd (admit (fresh_service 2) ''job-1'' 1000 ''alice'' sample_options)) ''job-1''
       = Some \<lparr>ID = ''job-1'', UserID = ''alice'', Options = sample_options,
               Status = ScanStatusPending, Progress = float_0, CreatedAt = 1000,
               StartedAt = None, CompletedAt = None, Error = [], ResultID = []\<rparr>
   \<and> finite (dom (activeScans (fresh_service 2)))
   \<and> distinct (map fst three_calls)
   \<and> set (map fst three_calls) \<inter> dom (activeScans (fresh_service 2)) = {}
   \<and> admitted (fst (run_sections (fresh_service 2)
         (map (\<lambda>(newID, now, userID, options). Admission newID now userID options)
            three_calls))) = 2
   \<and> map succeeded (fst (run_sections (fresh_service 2)
         (map (\<lambda>(newID, now, userID, options). Admission newID now userID options)
            three_calls))) = [True, True, False]"
proof -
  have t: "Target sample_options \<noteq> []" by (simp add: sample_options_def)
  have fresh: "activeScans (fresh_service 2) = Map.empty" "maxConcurrentScans (fresh_service 2) = 2"
    by (simp_all add: fresh_service_def NewScanService_def)
  have lf: "len_map (activeScans (fresh_service 2)) = 0"
    by (simp add: fresh len_map_def)
  have busy: "maxConcurrentScans busy_service = 2"
    by (simp add: busy_service_def fresh_service_def NewScanService_def)
  have d: "distinct (map fst three_calls)" "length three_calls = 3"
    by (simp_all add: three_calls_def)
  have full: "StartScan busy_service ''job-3'' 1002 ''carol'' sample_options =
       (Inl (NewUnavailable ''maximum concurrent scans reached'' None), busy_service)"
    using StartScan_budget_exhausted
        [OF t, of busy_service "''job-3''" 1002 "''carol''" "[]" "[]"] len_busy busy
    by simp
  note inst = StartScan_budget_exhausted
        [OF t, of "fresh_service 2" "''job-1''" 1000 "''alice''" "[]" three_calls]
  have ins: "activeScans (snd (admit (fresh_service 2) ''job-1'' 1000 ''alice'' sample_options))
        ''job-1''
       = Some \<lparr>ID = ''job-1'', UserID = ''alice'', Options = sample_options,
               Status = ScanStatusPending, Progress = float_0, CreatedAt = 1000,
               StartedAt = None, CompletedAt = None, Error = [], ResultID = []\<rparr>"
    using inst lf fresh(2) by (simp add: Let_def)
  have cnt: "admitted (fst (run_sections (fresh_service 2)
         (map (\<lambda>(newID, now, userID, options). Admission newID now userID options)
            three_calls))) = 2"
    using inst lf fresh d by simp
  show ?thesis
    using t full ins cnt d(1) lf len_busy busy fresh three_calls_results
    by simp
qed

text \<open>
  C1. The claim: the scan returned by \<open>StartScan\<close>, and the record it persists, carry the
  default port range, the default timeout and the default timing level where the caller
  left them out. On \<open>bare_options\<close> the code returns and persists the options as they came:
  empty ports, zero timeout, timing level 9. The defaults are assigned to the validator's own
  copy of the options (the last three conjuncts), which \<open>StartScan\<close> never sees. The call does
  succeed for the out-of-range timing level.
\<close>

theorem StartScan_defaults_lost:
  "StartScan (fresh_service 10) ''job-1'' 1000 ''alice'' bare_options =
     (Inr \<lparr>ID = ''job-1'', UserID = ''alice'', Options = bare_options,
           Status = ScanStatusPending, Progress = float_0, CreatedAt = 1000,
           StartedAt = None, CompletedAt = None, Error = [], ResultID = []\<rparr>,
      (fresh_service 10)
        \<lparr>activeScans := [''job-1'' \<mapsto>
            \<lparr>ID = ''job-1'', UserID = ''alice'', Options = bare_options,
             Status = ScanStatusPending, Progress = float_0, CreatedAt = 1000,
             StartedAt = None, CompletedAt = None, Error = [], ResultID = []\<rparr>],
         repository := (repository (fresh_service 10))
           \<lparr>scans := [''job-1'' \<mapsto>
              \<lparr>ID = ''job-1'', UserID = ''alice'', Options = bare_options,
               Status = ScanStatusPending, Progress = float_0, CreatedAt = 1000,
               StartedAt = None, CompletedAt = None, Error = [], ResultID = []\<rparr>]\<rparr>\<rparr>)
   \<and> Ports bare_options = [] \<and> Timeout bare_options = 0 \<and> TimingTemplate bare_options = 9
   \<and> Ports (snd (validateScanOptions bare_options)) = ''1-1000''
   \<and> Timeout (snd (validateScanOptions bare_options)) = 5 * Minute
   \<and> TimingTemplate (snd (validateScanOptions bare_options)) = 3"
  by (simp add: StartScan_def validateScanOptions_def admit_def SaveScan_def Let_def
      fresh_service_def NewScanService_def NewMemoryScanRepository_def len_map_def
      bare_options_def TimingParanoid_def TimingInsane_def TimingNormal_def)

text \<open>
  C4 as stated fails on the kind of the error: cancelling a stored scan that is Completed
  does not fail with \<open>InvalidState\<close>, a kind the code does not have.
\<close>

theorem CancelScan_finished_kind:
  "Status (scan_at ''a'' ''alice'' 100) = ScanStatusCompleted
   \<and> GetScan (stored_service (scan_at ''a'' ''alice'' 100)) ''a'' = Inr (scan_at ''a'' ''alice'' 100)
   \<and> failure_kind (fst (CancelScan (stored_service (scan_at ''a'' ''alice'' 100)) 2000 ''a''))
       \<noteq> Some InvalidStateError"
  by (simp add: CancelScan_def GetScan_def GetScanByID_def stored_service_def scan_at_def
      fresh_service_def NewScanService_def failure_kind_def NewInvalidInput_def New_def
      ScanStatusCompleted_def ScanStatusRunning_def ScanStatusPending_def)

text \<open>
  C4, as the code has it. For every scan that \<open>GetScan\<close> finds: if its status is neither
  Pending nor Running, \<open>CancelScan\<close> fails with an \<open>InvalidInput\<close> error and returns the
  state it was given (status, completion time, store record and active set unchanged); if
  its status is Pending or Running and the store holds a record under its identifier,
  \<open>CancelScan\<close> succeeds, the stored record becomes the scan with status Cancelled and
  completion time \<open>now\<close>, and the scan is no longer in the active set.
\<close>

theorem CancelScan_cases:
  assumes "GetScan s sid = Inr scan"
  shows "(Status scan \<noteq> ScanStatusPending \<and> Status scan \<noteq> ScanStatusRunning \<longrightarrow>
            CancelScan s now sid =
              (Inl (NewInvalidInput ''scan is not running or pending'' None), s)
            \<and> failure_kind (fst (CancelScan s now sid)) = Some InvalidInputError)
         \<and> ((Status scan = ScanStatusPending \<or> Status scan = ScanStatusRunning)
              \<and> scans (repository s) (ID scan) \<noteq> None \<longrightarrow>
            fst (CancelScan s now sid) = Inr ()
            \<and> scans (repository (snd (CancelScan s now sid))) =
                (scans (repository s))
                  (ID scan \<mapsto> scan\<lparr>Status := ScanStatusCancelled, CompletedAt := Some now\<rparr>)
            \<and> scanResults (repository (snd (CancelScan s now sid))) = scanResults (repository s)
            \<and> activeScans (snd (CancelScan s now sid)) = (activeScans s)(sid := None))"
  using assms
  by (auto simp: CancelScan_def UpdateScan_def Let_def failure_kind_def NewInvalidInput_def New_def)

theorem CancelScan_cases_witness:
  "GetScan (stored_service (scan_at ''a'' ''alice'' 100)) ''a'' = Inr (scan_at ''a'' ''alice'' 100)
   \<and> CancelScan (stored_service (scan_at ''a'' ''alice'' 100)) 2000 ''a'' =
       (Inl (NewInvalidInput ''scan is not running or pending'' None),
        stored_service (scan_at ''a'' ''alice'' 100))
   \<and> GetScan running_service ''job-1'' = Inr running_scan
   \<and> fst (CancelScan running_service 2000 ''job-1'') = Inr ()
   \<and> scans (repository (snd (CancelScan running_service 2000 ''job-1''))) ''job-1'' =
       Some (running_scan\<lparr>Status := ScanStatusCancelled, CompletedAt := Some 2000\<rparr>)
   \<and> activeScans (snd (CancelScan running_service 2000 ''job-1'')) ''job-1'' = None"
proof -
  have g1: "GetScan (stored_service (scan_at ''a'' ''alice'' 100)) ''a'' = Inr (scan_at ''a'' ''alice'' 100)"
    by (simp add: GetScan_def GetScanByID_def stored_service_def scan_at_def
        fresh_service_def NewScanService_def)
  have g2: "GetScan running_service ''job-1'' = Inr running_scan"
    by (simp add: GetScan_def running_service_def)
  have st1: "Status (scan_at ''a'' ''alice'' 100) \<noteq> ScanStatusPending
             \<and> Status (scan_at ''a'' ''alice'' 100) \<noteq> ScanStatusRunning"
    by (simp add: scan_at_def ScanStatusCompleted_def ScanStatusRunning_def ScanStatusPending_def)
  have st2: "(Status running_scan = ScanStatusPending \<or> Status running_scan = ScanStatusRunning)
             \<and> scans (repository running_service) (ID running_scan) \<noteq> None"
    by (simp add: running_scan_def running_service_def stored_service_def)
  show ?thesis
    using CancelScan_cases [OF g1, of 2000] CancelScan_cases [OF g2, of 2000] g1 g2 st1 st2
    by (simp add: running_scan_def)
qed


section \<open>Properties of the executor\<close>

lemma convertHosts_filter:
  "convertHosts lib hs = map (convertHost lib) (filter (\<lambda>h. xStatusState h = ''up'') hs)"
  by (induction hs) auto

text \<open>
  C5. For every parsed report, the hosts of the mapped result are the conversions of exactly
  the reported hosts whose state is \<open>up\<close>, in order; the total and up counts are those of
  the run statistics. On \<open>sample_report\<close> (see the instance below) the total count, 2,
  exceeds the one mapped host.
\<close>

theorem convertToDomainModel_up_hosts:
  "Hosts (convertToDomainModel lib nmapXML startTime) =
     map (convertHost lib) (filter (\<lambda>h. xStatusState h = ''up'') (xHosts nmapXML))
   \<and> (\<forall>h \<in> set (Hosts (convertToDomainModel lib nmapXML startTime)). HostStatus h = ''up'')
   \<and> TotalHosts (convertToDomainModel lib nmapXML startTime) = xRunStatsHostsTotal nmapXML
   \<and> UpHosts (convertToDomainModel lib nmapXML startTime) = xRunStatsHostsUp nmapXML"
  by (auto simp: convertToDomainModel_def convertHosts_filter convertHost_def)

theorem convertToDomainModel_up_hosts_witness:
  "map IP (Hosts (convertToDomainModel zero_lib sample_report 1000)) = [''10.0.0.1'']
   \<and> map HostStatus (Hosts (convertToDomainModel zero_lib sample_report 1000)) = [''up'']
   \<and> TotalHosts (convertToDomainModel zero_lib sample_report 1000) = 2
   \<and> UpHosts (convertToDomainModel zero_lib sample_report 1000) = 1
   \<and> int (length (Hosts (convertToDomainModel zero_lib sample_report 1000)))
       < TotalHosts (convertToDomainModel zero_lib sample_report 1000)"
  using convertToDomainModel_up_hosts [of zero_lib sample_report 1000]
  by (simp add: sample_report_def xml_host_def convertHost_def)

text \<open>
  C6 as stated fails on the kind of the error: when the run fails and the context was
  cancelled, the error is not of kind \<open>Canceled\<close>.
\<close>

theorem ExecuteScan_cancelled_kind:
  "cmdRun (failed_run (Some ContextCanceled)) \<noteq> None
   \<and> ctxErr (failed_run (Some ContextCanceled)) = Some ContextCanceled
   \<and> failure_kind (ExecuteScan ''nmap'' zero_lib (failed_run (Some ContextCanceled)) sample_options)
       \<noteq> Some CanceledError"
  by (simp add: ExecuteScan_def failed_run_def failure_kind_def NewTimeout_def New_def Let_def)

text \<open>
  C6, as the code has it. When the temporary file was created and the run fails: if the
  context was cancelled, \<open>ExecuteScan\<close> fails with a \<open>Timeout\<close> error whose message is
  \<^verbatim>\<open>scan was cancelled\<close>; if its deadline was exceeded, with a \<open>Timeout\<close> error
  \<^verbatim>\<open>scan timed out\<close>; only with neither does it fail with the \<open>Internal\<close> error that wraps
  the error of the run.
\<close>

theorem ExecuteScan_context_precedence:
  assumes "osCreateTemp env = Inr tmpFileName" and "cmdRun env = Some e"
  shows "(ctxErr env = Some ContextCanceled \<longrightarrow>
            ExecuteScan nmapPath lib env scanOptions =
              Inl (NewTimeout ''scan was cancelled'' (Some (Foreign ''context canceled'')))
            \<and> failure_kind (ExecuteScan nmapPath lib env scanOptions) = Some TimeoutError)
         \<and> (ctxErr env = Some ContextDeadlineExceeded \<longrightarrow>
            ExecuteScan nmapPath lib env scanOptions =
              Inl (NewTimeout ''scan timed out'' (Some (Foreign ''context deadline exceeded'')))
            \<and> failure_kind (ExecuteScan nmapPath lib env scanOptions) = Some TimeoutError)
         \<and> (ctxErr env = None \<longrightarrow>
            ExecuteScan nmapPath lib env scanOptions =
              Inl (NewInternal ''nmap scan failed'' (Some e))
            \<and> failure_kind (ExecuteScan nmapPath lib env scanOptions) = Some InternalError)"
  using assms
  by (simp add: ExecuteScan_def failure_kind_def NewTimeout_def NewInternal_def New_def Let_def)

theorem ExecuteScan_context_precedence_witness:
  "osCreateTemp (failed_run (Some ContextCanceled)) = Inr ''/tmp/nmap-scan-1.xml''
   \<and> cmdRun (failed_run (Some ContextCanceled)) = Some (Foreign ''signal: killed'')
   \<and> ExecuteScan ''nmap'' zero_lib (failed_run (Some ContextCanceled)) sample_options =
       Inl (NewTimeout ''scan was cancelled'' (Some (Foreign ''context canceled'')))
   \<and> ExecuteScan ''nmap'' zero_lib (failed_run (Some ContextDeadlineExceeded)) sample_options =
       Inl (NewTimeout ''scan timed out'' (Some (Foreign ''context deadline exceeded'')))
   \<and> ExecuteScan ''nmap'' zero_lib (failed_run None) sample_options =
       Inl (NewInternal ''nmap scan failed'' (Some (Foreign ''signal: killed'')))"
  using
    ExecuteScan_context_precedence [of "failed_run (Some ContextCanceled)"
      "''/tmp/nmap-scan-1.xml''" "Foreign ''signal: killed''" "''nmap''" zero_lib sample_options]
    ExecuteScan_context_precedence [of "failed_run (Some ContextDeadlineExceeded)"
      "''/tmp/nmap-scan-1.xml''" "Foreign ''signal: killed''" "''nmap''" zero_lib sample_options]
    ExecuteScan_context_precedence [of "failed_run None"
      "''/tmp/nmap-scan-1.xml''" "Foreign ''signal: killed''" "''nmap''" zero_lib sample_options]
  by (simp add: failed_run_def)


section \<open>Properties of the store: listing\<close>

subsection \<open>The sorting loops\<close>

lemma length_sort_inner: "length (sort_inner n i j arr) = length arr"
  by (induction n i j arr rule: sort_inner.induct) (subst sort_inner.simps, simp)

lemma mset_sort_inner:
  "n = length arr \<Longrightarrow> i < j \<Longrightarrow> mset (sort_inner n i j arr) = mset arr"
proof (induction n i j arr rule: sort_inner.induct)
  case (1 n i j arr)
  show ?case
  proof (cases "j < n")
    case True
    let ?arr' = "if CreatedAt (arr ! i) < CreatedAt (arr ! j)
                 then arr[i := arr ! j, j := arr ! i] else arr"
    have len: "n = length ?arr'" using "1.prems" by simp
    have "mset ?arr' = mset arr"
      using True "1.prems" by (simp add: mset_swap)
    moreover have "mset (sort_inner n i (j + 1) ?arr') = mset ?arr'"
      using "1.IH" [OF True len] "1.prems" by simp
    ultimately show ?thesis
      using True by (subst sort_inner.simps) simp
  next
    case False
    then show ?thesis by (subst sort_inner.simps) simp
  qed
qed

lemma prefix_sort_inner:
  "i < j \<Longrightarrow> k < i \<Longrightarrow> sort_inner n i j arr ! k = arr ! k"
proof (induction n i j arr rule: sort_inner.induct)
  case (1 n i j arr)
  show ?case
  proof (cases "j < n")
    case True
    let ?arr' = "if CreatedAt (arr ! i) < CreatedAt (arr ! j)
                 then arr[i := arr ! j, j := arr ! i] else arr"
    have "sort_inner n i (j + 1) ?arr' ! k = ?arr' ! k"
      using "1.IH" [OF True] "1.prems" by simp
    moreover have "?arr' ! k = arr ! k"
      using "1.prems" by simp
    ultimately show ?thesis
      using True by (subst sort_inner.simps) simp
  next
    case False
    then show ?thesis by (subst sort_inner.simps) simp
  qed
qed

lemma max_sort_inner:
  "n = length arr \<Longrightarrow> i < j \<Longrightarrow>
   (\<forall>k. i < k \<and> k < j \<longrightarrow> CreatedAt (arr ! k) \<le> CreatedAt (arr ! i)) \<Longrightarrow>
   i < k \<Longrightarrow> k < n \<Longrightarrow>
   CreatedAt (sort_inner n i j arr ! k) \<le> CreatedAt (sort_inner n i j arr ! i)"
proof (induction n i j arr rule: sort_inner.induct)
  case (1 n i j arr)
  show ?case
  proof (cases "j < n")
    case True
    let ?arr' = "if CreatedAt (arr ! i) < CreatedAt (arr ! j)
                 then arr[i := arr ! j, j := arr ! i] else arr"
    have len: "n = length ?arr'" using "1.prems" by simp
    have inv: "\<forall>k. i < k \<and> k < j + 1 \<longrightarrow> CreatedAt (?arr' ! k) \<le> CreatedAt (?arr' ! i)"
    proof (intro allI impI)
      fix m assume m: "i < m \<and> m < j + 1"
      show "CreatedAt (?arr' ! m) \<le> CreatedAt (?arr' ! i)"
      proof (cases "m = j")
        case True
        then show ?thesis using "1.prems" \<open>j < n\<close> by simp
      next
        case False
        then have "i < m \<and> m < j" using m by simp
        then have h: "CreatedAt (arr ! m) \<le> CreatedAt (arr ! i)" using "1.prems"(3) by blast
        have "m \<noteq> i" using m by simp
        then show ?thesis using h "1.prems"(1,2) \<open>j < n\<close> False by auto
      qed
    qed
    have "CreatedAt (sort_inner n i (j + 1) ?arr' ! k) \<le> CreatedAt (sort_inner n i (j + 1) ?arr' ! i)"
      using "1.IH" [OF True len _ inv] "1.prems" by simp
    then show ?thesis
      using True by (subst (1 2) sort_inner.simps) simp
  next
    case False
    then have "j \<ge> n" by simp
    then show ?thesis
      using "1.prems" by (subst (1 2) sort_inner.simps) simp
  qed
qed


lemma take_sort_inner:
  assumes "n = length arr" "i < j"
  shows "take i (sort_inner n i j arr) = take i arr"
  using assms by (auto simp: list_eq_iff_nth_eq length_sort_inner prefix_sort_inner)

lemma mset_drop_sort_inner:
  assumes "n = length arr" "i < j"
  shows "mset (drop i (sort_inner n i j arr)) = mset (drop i arr)"
proof -
  have "mset (take i (sort_inner n i j arr)) + mset (drop i (sort_inner n i j arr))
        = mset (take i arr) + mset (drop i arr)"
    using mset_sort_inner [OF assms] by (simp flip: mset_append)
  then show ?thesis
    using take_sort_inner [OF assms] by simp
qed

lemma tail_sort_inner:
  assumes "n = length arr" "i < j" "i \<le> b" "b < n"
  shows "\<exists>c. i \<le> c \<and> c < n \<and> sort_inner n i j arr ! b = arr ! c"
proof -
  have "sort_inner n i j arr ! b \<in> set (drop i (sort_inner n i j arr))"
    using assms by (auto simp: set_conv_nth length_sort_inner intro!: exI [of _ "b - i"])
  then have "sort_inner n i j arr ! b \<in> set (drop i arr)"
    using mset_drop_sort_inner [OF assms(1,2)] by (metis set_mset_mset)
  then obtain d where "d < length arr - i" "sort_inner n i j arr ! b = drop i arr ! d"
    by (auto simp: set_conv_nth)
  then show ?thesis
    using assms by (intro exI [of _ "i + d"]) auto
qed

lemma front_sorted_step:
  assumes "n = length arr" "front_sorted i arr"
  shows "front_sorted (i + 1) (sort_inner n i (i + 1) arr)"
  unfolding front_sorted_def
proof (intro allI impI)
  fix a b
  let ?res = "sort_inner n i (i + 1) arr"
  assume h: "a < b \<and> b < length ?res \<and> a < i + 1"
  then have b: "b < n" using assms(1) by (simp add: length_sort_inner)
  show "CreatedAt (?res ! b) \<le> CreatedAt (?res ! a)"
  proof (cases "a = i")
    case True
    then show ?thesis
      using max_sort_inner [OF assms(1), of i "i + 1" b] h b by simp
  next
    case False
    then have a: "a < i" using h by simp
    then have ra: "?res ! a = arr ! a" by (simp add: prefix_sort_inner)
    show ?thesis
    proof (cases "b < i")
      case True
      then have "?res ! b = arr ! b" by (simp add: prefix_sort_inner)
      then show ?thesis using ra assms(2) h a b assms(1) unfolding front_sorted_def by auto
    next
      case False
      then obtain c where "i \<le> c" "c < n" "?res ! b = arr ! c"
        using tail_sort_inner [OF assms(1), of i "i + 1" b] b by auto
      then show ?thesis using ra assms a unfolding front_sorted_def by auto
    qed
  qed
qed

lemma sort_outer_props:
  "n = length arr \<Longrightarrow> front_sorted i arr \<Longrightarrow>
   length (sort_outer n i arr) = n \<and> mset (sort_outer n i arr) = mset arr
   \<and> front_sorted n (sort_outer n i arr)"
proof (induction n i arr rule: sort_outer.induct)
  case (1 n i arr)
  show ?case
  proof (cases "i + 1 < n")
    case True
    let ?arr' = "sort_inner n i (i + 1) arr"
    have len: "n = length ?arr'" using "1.prems" by (simp add: length_sort_inner)
    have fs: "front_sorted (i + 1) ?arr'" using front_sorted_step "1.prems" by blast
    have ms: "mset ?arr' = mset arr" using "1.prems" by (simp add: mset_sort_inner)
    show ?thesis
      using "1.IH" [OF True len fs] ms True by (subst (1 2 3) sort_outer.simps) simp
  next
    case False
    have "front_sorted n arr"
      using "1.prems" False unfolding front_sorted_def by auto
    then show ?thesis
      using False "1.prems" by (subst (1 2 3) sort_outer.simps) simp
  qed
qed

lemma sortScans_sorted:
  "sorted_wrt (\<lambda>a b. CreatedAt b \<le> CreatedAt a) (sortScans arr)"
  and mset_sortScans: "mset (sortScans arr) = mset arr"
  and length_sortScans: "length (sortScans arr) = length arr"
proof -
  have fs0: "front_sorted 0 arr" by (simp add: front_sorted_def)
  note p = sort_outer_props [OF refl fs0]
  show "mset (sortScans arr) = mset arr" "length (sortScans arr) = length arr"
    using p by (simp_all add: sortScans_def)
  show "sorted_wrt (\<lambda>a b. CreatedAt b \<le> CreatedAt a) (sortScans arr)"
    using p unfolding sortScans_def front_sorted_def sorted_wrt_iff_nth_less by auto
qed


lemma sortScans_strict:
  assumes "distinct (map CreatedAt arr)"
  shows "sorted_wrt (\<lambda>a b. CreatedAt b < CreatedAt a) (sortScans arr)"
proof -
  have "mset (map CreatedAt (sortScans arr)) = mset (map CreatedAt arr)"
    by (simp add: mset_sortScans)
  then have d: "distinct (map CreatedAt (sortScans arr))"
    using assms by (metis mset_eq_imp_distinct_iff)
  show ?thesis
    unfolding sorted_wrt_iff_nth_less
  proof (intro allI impI)
    fix i j assume h: "i < j" "j < length (sortScans arr)"
    then have "CreatedAt (sortScans arr ! j) \<le> CreatedAt (sortScans arr ! i)"
      using sortScans_sorted [of arr] by (simp add: sorted_wrt_iff_nth_less)
    moreover have "CreatedAt (sortScans arr ! j) \<noteq> CreatedAt (sortScans arr ! i)"
      using d h by (auto simp: distinct_conv_nth)
    ultimately show "CreatedAt (sortScans arr ! j) < CreatedAt (sortScans arr ! i)"
      by simp
  qed
qed

subsection \<open>Pagination\<close>

lemma collect_filter:
  "set keys \<subseteq> dom m \<Longrightarrow>
   collect m userID keys =
     filter (\<lambda>scan. userID = [] \<or> UserID scan = userID) (map (\<lambda>k. the (m k)) keys)"
  by (induction keys) auto

lemma mset_collect:
  assumes "distinct keys" "set keys = dom m"
  shows "mset (collect m userID keys) =
           filter_mset (\<lambda>scan. userID = [] \<or> UserID scan = userID)
             (image_mset (\<lambda>k. the (m k)) (mset_set (dom m)))"
proof -
  have "mset keys = mset_set (dom m)"
    using assms mset_set_set by metis
  then have "image_mset (\<lambda>k. the (m k)) (mset_set (dom m)) = mset (map (\<lambda>k. the (m k)) keys)"
    by simp
  then show ?thesis
    using assms by (simp add: collect_filter)
qed

lemma sint_add_no_overflow:
  fixes a b :: "64 word"
  assumes "- (2 ^ 63) \<le> sint a + sint b" "sint a + sint b < 2 ^ 63"
  shows "sint (a + b) = sint a + sint b"
  using assms by (simp add: sint_word_ariths signed_take_bit_int_eq_self)

lemma sint_bounds64:
  fixes a :: "64 word"
  shows "- (2 ^ 63) \<le> sint a" "sint a < 2 ^ 63"
  using sint_ge [of a] sint_lt [of a] by simp_all

text \<open>
  C7, as the code has it. Let \<open>keys\<close> enumerate the stored scans, and let offset and limit be
  non-negative with \<open>offset + limit\<close> below \<open>2^63\<close>, so that the sum does not wrap. Then
  \<open>ListScans\<close> returns the scans that match the owner filter (the empty owner matches all),
  sorted by creation time, newest first (strictly so when the creation times differ), with
  the first \<open>offset\<close> dropped and at most \<open>limit\<close> taken; when the offset is at least the
  number of matching scans the result is the empty sequence.
\<close>

theorem ListScans_page:
  assumes "distinct keys" and "set keys = dom (scans r)"
    and "0 \<le> sint offset" and "0 \<le> sint limit" and "sint offset + sint limit < 2 ^ 63"
  shows "ListScans r keys userID limit offset =
           Some (take (nat (sint limit)) (drop (nat (sint offset))
                   (sortScans (collect (scans r) userID keys))))
         \<and> sorted_wrt (\<lambda>a b. CreatedAt b \<le> CreatedAt a)
             (sortScans (collect (scans r) userID keys))
         \<and> (distinct (map CreatedAt (collect (scans r) userID keys)) \<longrightarrow>
               sorted_wrt (\<lambda>a b. CreatedAt b < CreatedAt a)
                 (sortScans (collect (scans r) userID keys)))
         \<and> mset (sortScans (collect (scans r) userID keys)) =
             filter_mset (\<lambda>scan. userID = [] \<or> UserID scan = userID)
               (image_mset (\<lambda>k. the (scans r k)) (mset_set (dom (scans r))))
         \<and> (int (length (collect (scans r) userID keys)) \<le> sint offset \<longrightarrow>
               ListScans r keys userID limit offset = Some [])"
proof -
  let ?found = "sortScans (collect (scans r) userID keys)"
  let ?n = "int (length ?found)"
  have add: "sint (offset + limit) = sint offset + sint limit"
    using assms(3-5) by (intro sint_add_no_overflow) auto
  have page: "ListScans r keys userID limit offset =
                Some (take (nat (sint limit)) (drop (nat (sint offset)) ?found))"
  proof (cases "?n \<le> sint offset")
    case True
    then show ?thesis by (simp add: ListScans_def Let_def)
  next
    case False
    show ?thesis
    proof (cases "sint offset + sint limit > ?n")
      case True
      then show ?thesis
        using False assms(3,4) add
        by (simp add: ListScans_def Let_def slice_expr_def nat_diff_distrib')
    next
      case False2: False
      then show ?thesis
        using False assms(3,4) add
        by (simp add: ListScans_def Let_def slice_expr_def nat_add_distrib)
    qed
  qed
  have empty: "int (length (collect (scans r) userID keys)) \<le> sint offset \<longrightarrow>
               ListScans r keys userID limit offset = Some []"
    by (simp add: ListScans_def Let_def length_sortScans)
  show ?thesis
    using page empty sortScans_sorted [of "collect (scans r) userID keys"]
      sortScans_strict [of "collect (scans r) userID keys"]
      mset_collect [OF assms(1,2), of userID]
    by (simp add: mset_sortScans)
qed

text \<open>
  C10. \<open>ListScans\<close> is not total in its limit: with any negative limit and an offset below
  the number of matching scans, the end of the slice lies before its start (or the start is
  negative) and the slice expression panics; no value and no error is returned.
\<close>

theorem ListScans_negative_limit_panics:
  assumes "sint limit < 0"
    and "sint offset < int (length (collect (scans r) userID keys))"
  shows "ListScans r keys userID limit offset = None"
proof (cases "0 \<le> sint offset")
  case True
  have "sint (offset + limit) = sint offset + sint limit"
    using True assms(1) sint_bounds64 [of limit] sint_bounds64 [of offset]
    by (intro sint_add_no_overflow) auto
  then show ?thesis
    using True assms by (simp add: ListScans_def Let_def slice_expr_def length_sortScans)
next
  case False
  then show ?thesis
    using assms by (simp add: ListScans_def Let_def slice_expr_def length_sortScans)
qed

text \<open>
  C7 as stated, for every non-negative offset and limit, fails: with three stored scans,
  offset 1 and the largest limit, \<open>offset + limit\<close> wraps to the least 64-bit integer and the
  slice expression panics.
\<close>

theorem ListScans_overflow_panics:
  "0 \<le> sint (1 :: 64 word) \<and> 0 \<le> sint (0x7FFFFFFFFFFFFFFF :: 64 word)
   \<and> ListScans sample_repo [''a'', ''b'', ''c''] [] 0x7FFFFFFFFFFFFFFF 1 = None"
  by (simp add: ListScans_def Let_def slice_expr_def length_sortScans sample_repo_def)

theorem ListScans_negative_limit_panics_witness:
  "sint (- 1 :: 64 word) < 0
   \<and> sint (0 :: 64 word) < int (length (collect (scans sample_repo) [] [''a'', ''b'', ''c'']))
   \<and> ListScans sample_repo [''a'', ''b'', ''c''] [] (- 1) 0 = None"
  using ListScans_negative_limit_panics [of "- 1" 0 sample_repo "[]" "[''a'', ''b'', ''c'']"]
  by (simp add: sample_repo_def)

lemma sortScans_sample:
  "sortScans (collect (scans sample_repo) [] [''a'', ''b'', ''c'']) =
     [scan_at ''b'' ''bob'' 300, scan_at ''c'' ''alice'' 200, scan_at ''a'' ''alice'' 100]"
  by (simp add: sample_repo_def sortScans_def sort_outer.simps sort_inner.simps scan_at_def)

theorem ListScans_page_witness:
  "distinct [''a'', ''b'', ''c''] \<and> set [''a'', ''b'', ''c''] = dom (scans sample_repo)
   \<and> 0 \<le> sint (1 :: 64 word) \<and> 0 \<le> sint (5 :: 64 word)
   \<and> sint (1 :: 64 word) + sint (5 :: 64 word) < 2 ^ 63
   \<and> ListScans sample_repo [''a'', ''b'', ''c''] [] 5 1 =
       Some [scan_at ''c'' ''alice'' 200, scan_at ''a'' ''alice'' 100]"
proof -
  have d: "distinct [''a'', ''b'', ''c'']" by simp
  have s: "set [''a'', ''b'', ''c''] = dom (scans sample_repo)"
    by (auto simp: sample_repo_def)
  have o: "0 \<le> sint (1 :: 64 word)" and l: "0 \<le> sint (5 :: 64 word)"
    and b: "sint (1 :: 64 word) + sint (5 :: 64 word) < 2 ^ 63" by simp_all
  show ?thesis
    using ListScans_page [OF d s o l b, of "[]"] d s
    by (simp only: sortScans_sample) simp
qed


section \<open>Properties of the store: the reaper\<close>

lemma cleanScans_retention [simp]:
  "retentionPeriod (cleanScans c ks r) = retentionPeriod r"
  by (induction ks arbitrary: r) (auto split: option.splits simp: Let_def)

lemma cleanScans_scans:
  "scans (cleanScans c ks r) k =
     (case scans r k of
        None \<Rightarrow> None
      | Some s \<Rightarrow> if k \<in> set ks \<and> CreatedAt s < c then None else Some s)"
  by (induction ks arbitrary: r) (auto split: option.splits simp: Let_def)

lemma cleanScans_results:
  "scanResults (cleanScans c ks r) j =
     (if \<exists>k s. k \<in> set ks \<and> scans r k = Some s \<and> CreatedAt s < c \<and> ResultID s \<noteq> []
              \<and> ResultID s = j
      then None else scanResults r j)"
proof (induction ks arbitrary: r)
  case Nil
  then show ?case by simp
next
  case (Cons a ks)
  show ?case
  proof (cases "scans r a")
    case None
    then show ?thesis using Cons.IH [of r] by auto
  next
    case (Some s)
    show ?thesis
    proof (cases "CreatedAt s < c")
      case False
      then show ?thesis using Some Cons.IH [of r] by auto
    next
      case True
      let ?r1 = "r\<lparr>scans := (scans r)(a := None)\<rparr>"
      let ?r2 = "if ResultID s \<noteq> []
                 then ?r1\<lparr>scanResults := (scanResults ?r1)(ResultID s := None)\<rparr> else ?r1"
      have step: "cleanScans c (a # ks) r = cleanScans c ks ?r2"
        using Some True by (simp add: Let_def)
      have sc: "scans ?r2 = (scans r)(a := None)" by simp
      show ?thesis
        unfolding step Cons.IH [of ?r2] sc
        using Some True by (auto split: if_splits) (metis option.inject)+
    qed
  qed
qed

lemma cleanOrphans_scans [simp]: "scans (cleanOrphans ks r) = scans r"
  by (induction ks arbitrary: r) (auto split: option.splits)

lemma cleanOrphans_retention [simp]:
  "retentionPeriod (cleanOrphans ks r) = retentionPeriod r"
  by (induction ks arbitrary: r) (auto split: option.splits)

lemma cleanOrphans_results:
  "scanResults (cleanOrphans ks r) j =
     (case scanResults r j of
        None \<Rightarrow> None
      | Some res \<Rightarrow>
          if j \<in> set ks \<and> ScanID res \<noteq> [] \<and> scans r (ScanID res) = None
          then None else Some res)"
  by (induction ks arbitrary: r) (auto split: option.splits)


text \<open>
  C8, as the code has it. Let \<open>scanKeys\<close> enumerate the stored scans and \<open>resultKeys\<close> the
  results left by the first loop. After one tick: every scan created before
  \<open>now - retentionPeriod\<close> is absent, and so is the result it refers to when that reference is
  not empty; every remaining result with a non-empty scan reference refers to a stored scan;
  every scan created within the retention window is stored unchanged; and a result whose scan
  reference names such a scan is unchanged, provided no expired scan refers to that result.
\<close>

theorem cleanupTick_effect:
  assumes "set scanKeys = dom (scans r)"
    and "set resultKeys = dom (scanResults (cleanScans (now - retentionPeriod r) scanKeys r))"
  shows "(\<forall>k s. scans r k = Some s \<and> CreatedAt s < now - retentionPeriod r \<longrightarrow>
            scans (cleanupTick r now scanKeys resultKeys) k = None
            \<and> (ResultID s \<noteq> [] \<longrightarrow>
                 scanResults (cleanupTick r now scanKeys resultKeys) (ResultID s) = None))
         \<and> (\<forall>j res. scanResults (cleanupTick r now scanKeys resultKeys) j = Some res
                  \<and> ScanID res \<noteq> [] \<longrightarrow>
               scans (cleanupTick r now scanKeys resultKeys) (ScanID res) \<noteq> None)
         \<and> (\<forall>k s. scans r k = Some s \<and> \<not> CreatedAt s < now - retentionPeriod r \<longrightarrow>
               scans (cleanupTick r now scanKeys resultKeys) k = Some s)
         \<and> (\<forall>j res s. scanResults r j = Some res \<and> scans r (ScanID res) = Some s
                  \<and> \<not> CreatedAt s < now - retentionPeriod r
                  \<and> (\<forall>k s'. scans r k = Some s' \<and> CreatedAt s' < now - retentionPeriod r
                         \<longrightarrow> ResultID s' \<noteq> j) \<longrightarrow>
               scanResults (cleanupTick r now scanKeys resultKeys) j = Some res)"
proof -
  let ?c = "now - retentionPeriod r"
  let ?r1 = "cleanScans ?c scanKeys r"
  let ?r' = "cleanupTick r now scanKeys resultKeys"
  have tick: "?r' = cleanOrphans resultKeys ?r1"
    by (simp add: cleanupTick_def Let_def)
  have keys: "\<And>k s. scans r k = Some s \<Longrightarrow> k \<in> set scanKeys"
    using assms(1) by auto
  have rkeys: "\<And>j res. scanResults ?r1 j = Some res \<Longrightarrow> j \<in> set resultKeys"
    using assms(2) by auto
  have old: "\<forall>k s. scans r k = Some s \<and> CreatedAt s < ?c \<longrightarrow>
               scans ?r' k = None \<and> (ResultID s \<noteq> [] \<longrightarrow> scanResults ?r' (ResultID s) = None)"
  proof (intro allI impI)
    fix k s assume h: "scans r k = Some s \<and> CreatedAt s < ?c"
    then have "scans ?r1 k = None"
      using keys by (simp add: cleanScans_scans)
    moreover have "ResultID s \<noteq> [] \<longrightarrow> scanResults ?r1 (ResultID s) = None"
      using h keys by (auto simp: cleanScans_results)
    ultimately show "scans ?r' k = None \<and> (ResultID s \<noteq> [] \<longrightarrow> scanResults ?r' (ResultID s) = None)"
      unfolding tick by (simp add: cleanOrphans_results)
  qed
  have orphan: "\<forall>j res. scanResults ?r' j = Some res \<and> ScanID res \<noteq> [] \<longrightarrow>
                  scans ?r' (ScanID res) \<noteq> None"
  proof (intro allI impI)
    fix j res assume h: "scanResults ?r' j = Some res \<and> ScanID res \<noteq> []"
    then have "scanResults ?r1 j = Some res"
      unfolding tick by (auto simp: cleanOrphans_results split: option.splits if_splits)
    then show "scans ?r' (ScanID res) \<noteq> None"
      using h rkeys unfolding tick
      by (auto simp: cleanOrphans_results split: option.splits if_splits)
  qed
  have kept: "\<forall>k s. scans r k = Some s \<and> \<not> CreatedAt s < ?c \<longrightarrow> scans ?r' k = Some s"
    unfolding tick by (simp add: cleanScans_scans)
  have results: "\<forall>j res s. scanResults r j = Some res \<and> scans r (ScanID res) = Some s
                   \<and> \<not> CreatedAt s < ?c
                   \<and> (\<forall>k s'. scans r k = Some s' \<and> CreatedAt s' < ?c \<longrightarrow> ResultID s' \<noteq> j) \<longrightarrow>
                 scanResults ?r' j = Some res"
  proof (intro allI impI)
    fix j res s
    assume h: "scanResults r j = Some res \<and> scans r (ScanID res) = Some s
               \<and> \<not> CreatedAt s < ?c
               \<and> (\<forall>k s'. scans r k = Some s' \<and> CreatedAt s' < ?c \<longrightarrow> ResultID s' \<noteq> j)"
    then have "scanResults ?r1 j = Some res"
      by (auto simp: cleanScans_results)
    moreover have "scans ?r1 (ScanID res) = Some s"
      using h by (simp add: cleanScans_scans)
    ultimately show "scanResults ?r' j = Some res"
      unfolding tick by (simp add: cleanOrphans_results)
  qed
  show ?thesis
    using old orphan kept results by blast
qed

lemma aged_tick:
  "cleanupTick aged_repo 5500 [''old'', ''new''] [''r-new'', ''r-lost''] =
     \<lparr>scans = [''new'' \<mapsto> (scan_at ''new'' ''bob'' 5000)\<lparr>ResultID := ''r-new''\<rparr>],
      scanResults = [''r-new'' \<mapsto> result_of ''r-new'' ''new''],
      retentionPeriod = 1000\<rparr>"
  by (auto simp: cleanupTick_def aged_repo_def scan_at_def result_of_def Let_def fun_upd_def)

theorem cleanupTick_effect_witness:
  "set [''old'', ''new''] = dom (scans aged_repo)
   \<and> set [''r-new'', ''r-lost''] =
       dom (scanResults (cleanScans (5500 - retentionPeriod aged_repo) [''old'', ''new''] aged_repo))
   \<and> scans (cleanupTick aged_repo 5500 [''old'', ''new''] [''r-new'', ''r-lost'']) ''old'' = None
   \<and> scanResults (cleanupTick aged_repo 5500 [''old'', ''new''] [''r-new'', ''r-lost'']) ''r-old''
       = None
   \<and> scanResults (cleanupTick aged_repo 5500 [''old'', ''new''] [''r-new'', ''r-lost'']) ''r-lost''
       = None
   \<and> scans (cleanupTick aged_repo 5500 [''old'', ''new''] [''r-new'', ''r-lost'']) ''new''
       = scans aged_repo ''new''
   \<and> scanResults (cleanupTick aged_repo 5500 [''old'', ''new''] [''r-new'', ''r-lost'']) ''r-new''
       = scanResults aged_repo ''r-new''"
proof -
  have k: "set [''old'', ''new''] = dom (scans aged_repo)"
    by (auto simp: aged_repo_def)
  have rk: "set [''r-new'', ''r-lost''] =
       dom (scanResults (cleanScans (5500 - retentionPeriod aged_repo) [''old'', ''new''] aged_repo))"
    by (auto simp: aged_repo_def scan_at_def Let_def split: if_splits)
  show ?thesis
    using cleanupTick_effect [OF k rk] k rk
    by (simp add: aged_tick) (simp add: aged_repo_def)
qed

text \<open>
  C8 as stated, over any store state, fails on its last part: when an expired scan and a
  scan within the retention window refer to the same result, the tick deletes the result of
  the scan that stays.
\<close>

theorem cleanupTick_shared_result:
  "set [''old'', ''new''] = dom (scans shared_result_repo)
   \<and> set [] = dom (scanResults
                    (cleanScans (5500 - retentionPeriod shared_result_repo) [''old'', ''new'']
                       shared_result_repo))
   \<and> scans shared_result_repo ''new'' = Some ((scan_at ''new'' ''alice'' 5000)\<lparr>ResultID := ''r-1''\<rparr>)
   \<and> \<not> CreatedAt ((scan_at ''new'' ''alice'' 5000)\<lparr>ResultID := ''r-1''\<rparr>)
         < 5500 - retentionPeriod shared_result_repo
   \<and> scans (cleanupTick shared_result_repo 5500 [''old'', ''new''] []) ''new''
       = scans shared_result_repo ''new''
   \<and> scanResults shared_result_repo ''r-1'' = Some (result_of ''r-1'' ''new'')
   \<and> scanResults (cleanupTick shared_result_repo 5500 [''old'', ''new''] []) ''r-1'' = None"
  by (auto simp: cleanupTick_def shared_result_repo_def scan_at_def Let_def split: if_splits)


section \<open>Properties of the store: copies\<close>

text \<open>
  C9. The claim: every value the store hands out or accepts is an independent copy, nested
  sequences included. The struct copies of the store copy slice headers only. After
  \<open>SaveScan\<close> and \<open>SaveScanResult\<close>, the values returned by \<open>GetScanByID\<close> and
  \<open>GetScanResultByID\<close> have the headers of the stored records; assigning to element 0 of the
  returned extra options, or of the returned hosts, changes what the stored record holds.
\<close>

theorem store_copies_share_arrays:
  "SaveScan ((NewMemoryScanRepository 1000)\<lparr>scanResults := [''result-1'' \<mapsto> ref_result]\<rparr>)
     ref_scan = Inr ref_repo
   \<and> SaveScanResult ((NewMemoryScanRepository 1000)\<lparr>scans := [''job-1'' \<mapsto> ref_scan]\<rparr>)
       ref_result = Inr ref_repo
   \<and> GetScanByID ref_repo ''job-1'' = Inr ref_scan
   \<and> GetScanResultByID ref_repo ''result-1'' = Inr ref_result
   \<and> stored_extra_options string_memory ref_repo ''job-1'' = Some [''-v'', ''--open'']
   \<and> index_assign string_memory (ExtraOptions (Options ref_scan)) 0 ''--script=vuln''
       = Some (string_memory(1 := [''--script=vuln'', ''--open'']))
   \<and> stored_extra_options (string_memory(1 := [''--script=vuln'', ''--open''])) ref_repo ''job-1''
       = Some [''--script=vuln'', ''--open'']
   \<and> stored_hosts host_memory ref_repo ''result-1'' = Some [host_at ''10.0.0.5'']
   \<and> index_assign host_memory (Hosts ref_result) 0 (host_at ''192.168.0.1'')
       = Some (host_memory(2 := [host_at ''192.168.0.1'']))
   \<and> stored_hosts (host_memory(2 := [host_at ''192.168.0.1''])) ref_repo ''result-1''
       = Some [host_at ''192.168.0.1'']"
  by (simp add: SaveScan_def SaveScanResult_def GetScanByID_def GetScanResultByID_def
      NewMemoryScanRepository_def ref_repo_def stored_extra_options_def stored_hosts_def
      elems_def index_assign_def string_memory_def host_memory_def)
     (simp add: ref_scan_def ref_result_def fun_upd_def)


end
